theory Spec2Isabelle
  imports Complex_Main "HOL-Library.Log_Nat"
begin

section \<open>Errors and text\<close>

text \<open>
  A JavaScript exception is a value with a message. The source raises \<^verbatim>\<open>Error\<close> itself
  (an unsupported token) and meets \<^verbatim>\<open>TypeError\<close> where it calls a method of a value that
  has none; whatever the libraries and the network raise is an \<open>Error\<close> with their message.
\<close>

datatype js_error = Error string | TypeError string

fun message :: "js_error \<Rightarrow> string" where
  "message (Error m) = m"
| "message (TypeError m) = m"

text \<open>The decimal text of a number written into a template string.\<close>

definition digit_char :: "nat \<Rightarrow> char" where
  "digit_char d = char_of (48 + d)"

fun decimal :: "nat \<Rightarrow> string" where
  "decimal n = (if n < 10 then [digit_char n] else decimal (n div 10) @ [digit_char (n mod 10)])"

declare decimal.simps [simp del]

definition int_text :: "int \<Rightarrow> string" where
  "int_text i = (if i < 0 then ''-'' @ decimal (nat (- i)) else decimal (nat i))"

text \<open>
  \<^verbatim>\<open>String.prototype.toLowerCase\<close> on the letters A to Z. No character outside ASCII
  lower-cases to a letter of \<^verbatim>\<open>filled\<close>, \<^verbatim>\<open>success\<close>, \<^verbatim>\<open>fill\<close> or \<^verbatim>\<open>failed\<close>, so
  the comparisons of the status poller see the same result.
\<close>

definition lower_char :: "char \<Rightarrow> char" where
  "lower_char c =
     (let n = (of_char c :: nat) in if 65 \<le> n \<and> n \<le> 90 then char_of (n + 32) else c)"

definition toLowerCase :: "string \<Rightarrow> string" where
  "toLowerCase s = map lower_char s"

section \<open>JavaScript numbers\<close>

text \<open>
  A \<^verbatim>\<open>Number\<close> is an IEEE 754 double: a rational (its exact value), an infinity, or NaN.
  The sign of zero is not kept; it plays no part in a comparison.
\<close>

datatype number = Finite rat | PosInfinity | NegInfinity | NaN

definition round_half_even :: "rat \<Rightarrow> int" where
  "round_half_even x =
     (let f = \<lfloor>x\<rfloor>; d = x - of_int f
      in if d < 1 / 2 then f else if 1 / 2 < d then f + 1 else if even f then f else f + 1)"

text \<open>The exponent \<open>k\<close> with \<open>2 powi k \<le> x < 2 powi (k + 1)\<close>, for a positive \<open>x\<close>.\<close>

definition binade :: "rat \<Rightarrow> int" where
  "binade x = (if 1 \<le> x then bitlen \<lfloor>x\<rfloor> - 1 else - bitlen (\<lceil>1 / x\<rceil> - 1))"

text \<open>
  Rounding a rational to the nearest double, ties to the even significand: 53 significant
  bits, the exponent of the last bit no less than -1074 (subnormal numbers), overflow to
  an infinity from \<open>2 powi 1024\<close> on.
\<close>

definition to_double :: "rat \<Rightarrow> number" where
  "to_double x =
     (if x = 0 then Finite 0
      else let a = \<bar>x\<bar>;
               e = max (binade a - 52) (- 1074);
               v = of_int (round_half_even (a / 2 powi e)) * 2 powi e
           in if 2 powi 1024 \<le> v then (if 0 < x then PosInfinity else NegInfinity)
              else Finite (if 0 < x then v else - v))"

text \<open>\<^verbatim>\<open>Number(n)\<close> of a BigInt.\<close>

definition Number :: "int \<Rightarrow> number" where
  "Number n = to_double (of_int n)"

fun js_divide :: "number \<Rightarrow> number \<Rightarrow> number" where
  "js_divide NaN y = NaN"
| "js_divide x NaN = NaN"
| "js_divide (Finite a) (Finite b) =
     (if b = 0 then (if a = 0 then NaN else if 0 < a then PosInfinity else NegInfinity)
      else to_double (a / b))"
| "js_divide (Finite a) PosInfinity = Finite 0"
| "js_divide (Finite a) NegInfinity = Finite 0"
| "js_divide PosInfinity (Finite b) = (if 0 \<le> b then PosInfinity else NegInfinity)"
| "js_divide NegInfinity (Finite b) = (if 0 \<le> b then NegInfinity else PosInfinity)"
| "js_divide PosInfinity PosInfinity = NaN"
| "js_divide PosInfinity NegInfinity = NaN"
| "js_divide NegInfinity PosInfinity = NaN"
| "js_divide NegInfinity NegInfinity = NaN"

text \<open>\<^verbatim>\<open>x <= y\<close> and \<^verbatim>\<open>x >= y\<close>: false as soon as one side is NaN.\<close>

fun js_le :: "number \<Rightarrow> number \<Rightarrow> bool" where
  "js_le NaN y = False"
| "js_le x NaN = False"
| "js_le (Finite a) (Finite b) = (a \<le> b)"
| "js_le NegInfinity y = True"
| "js_le x PosInfinity = True"
| "js_le PosInfinity y = False"
| "js_le x NegInfinity = False"

definition js_ge :: "number \<Rightarrow> number \<Rightarrow> bool" where
  "js_ge x y = js_le y x"

section \<open>Configuration store (tools/config.js)\<close>

text \<open>
  \<^verbatim>\<open>TOKENS[sym]\<close> is an object whose property names are the chain id (\<^verbatim>\<open>10\<close>) or the
  chain id followed by \<^verbatim>\<open>-bridged\<close> (\<^verbatim>\<open>"10-bridged"\<close>). The two families of names are
  kept apart by a constructor instead of by their spelling.
\<close>

datatype token_key = Chain_key nat | Bridged_key nat

type_synonym token_registry = "string \<rightharpoonup> (token_key \<rightharpoonup> string)"

record chain_info =
  chain_name :: string
  rpcUrl :: string

text \<open>
  An entry of \<^verbatim>\<open>BRIDGE_OPERATIONS\<close>. The input amount is held as the text that
  \<^verbatim>\<open>inputAmount.toString()\<close> gives (\<^verbatim>\<open>0.001\<close> is \<open>''0.001''\<close>); \<open>decimals\<close> and
  \<open>useNativeToken\<close> may be left out of an entry.
\<close>

record operation =
  name :: string
  enabled :: bool
  tokenSymbol :: string
  originChainId :: nat
  destinationChainId :: nat
  inputAmount :: string
  decimals :: "nat option"
  useNativeToken :: "bool option"

record thresholds =
  minOutputPercentage :: number
  maxFillTimeSeconds :: number

record notifications =
  onThresholdFailure :: bool
  onExecutionStart :: bool
  onExecutionComplete :: bool
  onError :: bool

record monitoring =
  statusPollingInterval :: nat
  maxPollingAttempts :: nat
  notifications :: notifications

record options =
  autoExecute :: bool
  saveHistory :: bool
  historyFile :: string
  verboseLogging :: bool
  showQuoteDetails :: bool

record config =
  TOKENS :: token_registry
  CHAINS :: "nat \<rightharpoonup> chain_info"
  TOKEN_DECIMALS :: "string \<rightharpoonup> nat"
  BRIDGE_OPERATIONS :: "operation list"
  THRESHOLDS :: thresholds
  MONITORING :: monitoring
  OPTIONS :: options

text \<open>
  \<^verbatim>\<open>TOKENS[sym] && TOKENS[sym][key]\<close>: the address when the symbol is listed and the
  property holds a truthy value; an address is a string, truthy when it is not empty.
\<close>

definition token_entry :: "token_registry \<Rightarrow> string \<Rightarrow> token_key \<Rightarrow> string option" where
  "token_entry tokens symbol key =
     (case tokens symbol of
        None \<Rightarrow> None
      | Some chainMap \<Rightarrow>
          (case chainMap key of
             None \<Rightarrow> None
           | Some address \<Rightarrow> if address = [] then None else Some address))"

section \<open>Lookup utilities (tools/helper.js)\<close>

definition NotSupported :: "string \<Rightarrow> nat \<Rightarrow> js_error" where
  "NotSupported symbol chainId =
     Error (''Token '' @ symbol @ '' not supported on chain '' @ decimal chainId)"

definition getTokenAddress :: "token_registry \<Rightarrow> string \<Rightarrow> nat \<Rightarrow> bool \<Rightarrow> js_error + string" where
  "getTokenAddress tokens symbol chainId useBridged =
     (case (if useBridged \<and> symbol \<in> set [''USDC'']
            then token_entry tokens symbol (Bridged_key chainId) else None) of
        Some bridged \<Rightarrow> Inr bridged
      | None \<Rightarrow>
          (case token_entry tokens symbol (Chain_key chainId) of
             Some address \<Rightarrow> Inr address
           | None \<Rightarrow> Inl (NotSupported symbol chainId)))"

text \<open>A configured value that is not 0, else the built-in table, else 18.\<close>

definition getTokenDecimals :: "(string \<rightharpoonup> nat) \<Rightarrow> string \<Rightarrow> nat" where
  "getTokenDecimals token_decimals symbol =
     (let switch = (if symbol = ''ETH'' \<or> symbol = ''WETH'' then 18
                    else if symbol = ''USDC'' \<or> symbol = ''USDC.e'' \<or> symbol = ''USDT'' then 6
                    else if symbol = ''WBTC'' then 8
                    else 18)
      in case token_decimals symbol of
           None \<Rightarrow> switch
         | Some d \<Rightarrow> if d = 0 then switch else d)"

definition getChainName :: "(nat \<rightharpoonup> chain_info) \<Rightarrow> nat \<Rightarrow> string" where
  "getChainName chainTable chainId =
     (case chainTable chainId of
        Some c \<Rightarrow> chain_name c
      | None \<Rightarrow> ''Chain '' @ decimal chainId)"

record route =
  routeOriginChainId :: nat
  routeDestinationChainId :: nat
  inputToken :: string
  outputToken :: string
  isNative :: bool

definition createRouteObject :: "token_registry \<Rightarrow> string \<Rightarrow> nat \<Rightarrow> nat \<Rightarrow> bool \<Rightarrow> js_error + route" where
  "createRouteObject tokens symbol origin destination native =
     (case getTokenAddress tokens symbol origin False of
        Inl e \<Rightarrow> Inl e
      | Inr input \<Rightarrow>
          (case getTokenAddress tokens symbol destination False of
             Inl e \<Rightarrow> Inl e
           | Inr output \<Rightarrow>
               Inr \<lparr>routeOriginChainId = origin, routeDestinationChainId = destination,
                    inputToken = input, outputToken = output,
                    isNative = (symbol = ''ETH'' \<and> native)\<rparr>))"

text \<open>\<^verbatim>\<open>operation.decimals || getTokenDecimals(operation.tokenSymbol)\<close>\<close>

definition decimalsFor :: "config \<Rightarrow> operation \<Rightarrow> nat" where
  "decimalsFor cfg operation =
     (case decimals operation of
        None \<Rightarrow> getTokenDecimals (TOKEN_DECIMALS cfg) (tokenSymbol operation)
      | Some d \<Rightarrow> if d = 0 then getTokenDecimals (TOKEN_DECIMALS cfg) (tokenSymbol operation) else d)"

section \<open>Quotes, results, and the outside world\<close>

text \<open>
  What the bridging SDK returns for a quote. \<open>totalRelayFee\<close> and \<open>lpFee\<close> stand for
  \<^verbatim>\<open>quote.fees.totalRelayFee?.total\<close> and \<^verbatim>\<open>quote.fees.lpFee?.total\<close>.
\<close>

record deposit =
  depositInputAmount :: int
  outputAmount :: int

record fees =
  totalRelayFee :: "int option"
  lpFee :: "int option"

record quote =
  deposit :: deposit
  estimatedFillTimeSec :: number
  fees :: "fees option"

record exec_result =
  success :: bool
  depositId :: "int option"
  originTxHash :: "string option"
  destinationTxHash :: "string option"
  error :: "string option"

text \<open>The progress notifications of \<^verbatim>\<open>client.executeQuote\<close>, by step and status.\<close>

datatype progress =
    Approve_pending
  | Approve_txSuccess string
  | Deposit_pending
  | Deposit_txSuccess int string
  | Fill_pending
  | Fill_txSuccess "string option" bool
  | Other_progress

text \<open>
  The answer to one GET of the status endpoint: the request fails (network, non-2xx), or
  a body arrives, with \<^verbatim>\<open>response.data.status\<close> when that is a string.
\<close>

datatype http_response = Request_failed js_error | Body "string option"

record saved_operation =
  saved_name :: string
  saved_tokenSymbol :: string
  saved_originChainId :: nat
  saved_destinationChainId :: nat
  saved_inputAmount :: string

record saved_result =
  saved_success :: bool
  saved_depositId :: "string option"
  saved_originTxHash :: "string option"
  saved_destinationTxHash :: "string option"
  saved_error :: "string option"
  saved_outputAmount :: "string option"
  saved_fees :: "(string \<times> string) option"

record history_record =
  timestamp :: string
  saved_operation :: saved_operation
  saved_result :: saved_result

text \<open>
  The history file as the recorder meets it: absent; present but \<^verbatim>\<open>readFileSync\<close> raises;
  read but \<^verbatim>\<open>JSON.parse\<close> raises; or parsed, to an array of records or to another JSON
  value (an object, a number, \<^verbatim>\<open>null\<close>), which has no \<^verbatim>\<open>push\<close>: the TypeError of that
  call is kept with it.
\<close>

datatype json_value = Json_array "history_record list" | Json_other js_error

datatype file_state = Missing | Unreadable js_error | Unparsable js_error | Parsed json_value

datatype log_line =
    Line string
  | Starting_operation string
  | Described string operation
  | Quote_fill_time number
  | Quote_fee_percentage int int
  | Threshold_output_percentage number number
  | Threshold_fill_time number number
  | Poll_waiting nat

datatype io_event =
    Sdk_getQuote route int
  | Sdk_executeQuote nat quote
  | Http_get_status nat int
  | Sleep nat
  | Fs_existsSync
  | Fs_readFileSync
  | Fs_writeFileSync
  | Process_exit nat

text \<open>
  The state a run works on: the console, the calls made to the outside, the history file,
  and whether \<^verbatim>\<open>writeFileSync\<close> on it raises.
\<close>

record world =
  console :: "log_line list"
  trace :: "io_event list"
  history_file :: file_state
  write_failure :: "js_error option"

text \<open>
  What the libraries and the network answer. \<open>parseUnits\<close> and \<open>formatUnits\<close> are
  viem's; \<open>client_executeQuote\<close> gives the notifications the SDK sends and the error it
  ends with, if any; \<open>axios_get origin id n\<close> is the answer to the \<open>n\<close>-th request for a
  deposit; \<open>clock\<close> gives the time after so many calls to the outside.
\<close>

record externals =
  parseUnits :: "string \<Rightarrow> nat \<Rightarrow> js_error + int"
  formatUnits :: "int \<Rightarrow> nat \<Rightarrow> js_error + string"
  client_getQuote :: "route \<Rightarrow> int \<Rightarrow> js_error + quote"
  client_executeQuote :: "nat \<Rightarrow> quote \<Rightarrow> progress list \<times> js_error option"
  axios_get :: "nat \<Rightarrow> int \<Rightarrow> nat \<Rightarrow> http_response"
  clock :: "nat \<Rightarrow> string"
  account_address :: string

definition logWithTime :: "log_line \<Rightarrow> world \<Rightarrow> world" where
  "logWithTime l w = w\<lparr>console := console w @ [l]\<rparr>"

definition call :: "io_event \<Rightarrow> world \<Rightarrow> world" where
  "call ev w = w\<lparr>trace := trace w @ [ev]\<rparr>"

text \<open>Sequencing of steps that may raise, and \<^verbatim>\<open>try { ... } catch (error) { ... }\<close>.\<close>

definition andThen ::
  "(js_error + 'a) \<times> world \<Rightarrow> ('a \<Rightarrow> world \<Rightarrow> (js_error + 'b) \<times> world) \<Rightarrow> (js_error + 'b) \<times> world" where
  "andThen m f = (case m of (Inl e, w) \<Rightarrow> (Inl e, w) | (Inr v, w) \<Rightarrow> f v w)"

definition try_catch ::
  "(js_error + 'a) \<times> world \<Rightarrow> (js_error \<Rightarrow> world \<Rightarrow> (js_error + 'a) \<times> world) \<Rightarrow> (js_error + 'a) \<times> world" where
  "try_catch body handler = (case body of (Inl e, w) \<Rightarrow> handler e w | (Inr v, w) \<Rightarrow> (Inr v, w))"

section \<open>History recorder\<close>

text \<open>\<^verbatim>\<open>x || null\<close> for a string: the empty string counts as absent.\<close>

definition or_null :: "string option \<Rightarrow> string option" where
  "or_null x = (case x of None \<Rightarrow> None | Some s \<Rightarrow> if s = [] then None else Some s)"

text \<open>The first \<^verbatim>\<open>try\<close> block of the recorder: the value of \<^verbatim>\<open>history\<close> after it.\<close>

definition readHistory :: "world \<Rightarrow> json_value \<times> world" where
  "readHistory w =
     (let w1 = call Fs_existsSync w
      in case history_file w of
           Missing \<Rightarrow> (Json_array [], w1)
         | Unreadable e \<Rightarrow>
             (Json_array [],
              logWithTime (Line (''Warning: Could not read history file: '' @ message e))
                (call Fs_readFileSync w1))
         | Unparsable e \<Rightarrow>
             (Json_array [],
              logWithTime (Line (''Warning: Could not read history file: '' @ message e))
                (call Fs_readFileSync w1))
         | Parsed v \<Rightarrow> (v, call Fs_readFileSync w1))"

definition safeOperation :: "operation \<Rightarrow> saved_operation" where
  "safeOperation operation =
     \<lparr>saved_name = name operation,
      saved_tokenSymbol = tokenSymbol operation,
      saved_originChainId = originChainId operation,
      saved_destinationChainId = destinationChainId operation,
      saved_inputAmount = inputAmount operation\<rparr>"

text \<open>A deposit id is a number: \<^verbatim>\<open>result.depositId ? ... : null\<close> takes 0 for absent.\<close>

definition safeResult :: "exec_result \<Rightarrow> saved_result" where
  "safeResult result =
     \<lparr>saved_success = success result,
      saved_depositId =
        (case depositId result of
           None \<Rightarrow> None
         | Some i \<Rightarrow> if i = 0 then None else Some (int_text i)),
      saved_originTxHash = or_null (originTxHash result),
      saved_destinationTxHash = or_null (destinationTxHash result),
      saved_error = or_null (error result),
      saved_outputAmount = None,
      saved_fees = None\<rparr>"

text \<open>\<^verbatim>\<open>fee?.total ? formatUnits(fee.total, decimals) : "0"\<close>\<close>

definition feeText :: "externals \<Rightarrow> nat \<Rightarrow> int option \<Rightarrow> js_error + string" where
  "feeText ext d amount =
     (case amount of
        None \<Rightarrow> Inr ''0''
      | Some t \<Rightarrow> if t = 0 then Inr ''0'' else formatUnits ext t d)"

text \<open>
  The block that adds the output amount and the fees of the quote to the record; when
  formatting raises, a warning is logged and the amount is stored as plain digits.
\<close>

definition addOutputAmount ::
  "config \<Rightarrow> externals \<Rightarrow> operation \<Rightarrow> quote option \<Rightarrow> saved_result \<Rightarrow> world \<Rightarrow> saved_result \<times> world" where
  "addOutputAmount cfg ext operation quote sr w =
     (case quote of
        None \<Rightarrow> (sr, w)
      | Some q \<Rightarrow>
          if outputAmount (deposit q) = 0 then (sr, w)
          else
            (let d = decimalsFor cfg operation;
                 fallback = (\<lambda>e.
                   (sr\<lparr>saved_outputAmount := Some (int_text (outputAmount (deposit q)))\<rparr>,
                    logWithTime (Line (''Warning: Could not format output amount: '' @ message e)) w))
             in (case formatUnits ext (outputAmount (deposit q)) d of
                   Inl e \<Rightarrow> fallback e
                 | Inr text \<Rightarrow>
                     (case fees q of
                        None \<Rightarrow> (sr\<lparr>saved_outputAmount := Some text\<rparr>, w)
                      | Some f \<Rightarrow>
                          (case feeText ext d (totalRelayFee f) of
                             Inl e \<Rightarrow> fallback e
                           | Inr relayFee \<Rightarrow>
                               (case feeText ext d (lpFee f) of
                                  Inl e \<Rightarrow> fallback e
                                | Inr lp \<Rightarrow>
                                    (sr\<lparr>saved_outputAmount := Some text,
                                        saved_fees := Some (relayFee, lp)\<rparr>, w)))))))"

definition saveTransactionToHistory ::
  "config \<Rightarrow> externals \<Rightarrow> operation \<Rightarrow> exec_result \<Rightarrow> quote option \<Rightarrow> world \<Rightarrow> (js_error + unit) \<times> world" where
  "saveTransactionToHistory cfg ext operation result quote w =
     (if \<not> saveHistory (OPTIONS cfg) then (Inr (), w)
      else
        let (history, w1) = readHistory w;
            (sr, w2) = addOutputAmount cfg ext operation quote (safeResult result) w1;
            entry = \<lparr>timestamp = clock ext (length (trace w2)),
                     saved_operation = safeOperation operation,
                     saved_result = sr\<rparr>
        in case history of
             Json_other e \<Rightarrow> (Inl e, w2)
           | Json_array records \<Rightarrow>
               (let w3 = call Fs_writeFileSync w2
                in (case write_failure w3 of
                      Some e \<Rightarrow>
                        (Inr (),
                         logWithTime (Line (''Error: Could not save to history file: '' @ message e)) w3)
                    | None \<Rightarrow>
                        (let w4 = w3\<lparr>history_file := Parsed (Json_array (records @ [entry]))\<rparr>
                         in (Inr (),
                             if verboseLogging (OPTIONS cfg)
                             then logWithTime (Line ''Transaction saved to history file'') w4
                             else w4)))))"

section \<open>Quote acquisition\<close>

text \<open>The lines logged when \<^verbatim>\<open>OPTIONS.showQuoteDetails\<close> is set; formatting may raise.\<close>

definition logQuoteDetails ::
  "config \<Rightarrow> externals \<Rightarrow> operation \<Rightarrow> quote \<Rightarrow> world \<Rightarrow> (js_error + unit) \<times> world" where
  "logQuoteDetails cfg ext operation quote w =
     (let d = decimalsFor cfg operation;
          unit = '' '' @ tokenSymbol operation
      in andThen (formatUnits ext (depositInputAmount (deposit quote)) d,
                  logWithTime (Line ''Quote details:'') w)
           (\<lambda>input w1.
         andThen (formatUnits ext (outputAmount (deposit quote)) d,
                  logWithTime (Line (''- Input amount: '' @ input @ unit)) w1)
           (\<lambda>output w2.
              let w3 = logWithTime (Quote_fill_time (estimatedFillTimeSec quote))
                         (logWithTime (Line (''- Output amount: '' @ output @ unit)) w2)
              in case fees quote of
                   None \<Rightarrow> (Inl (TypeError ''Cannot read properties of undefined''), w3)
                 | Some f \<Rightarrow>
                     (case totalRelayFee f of
                        None \<Rightarrow> (Inl (TypeError ''Cannot read properties of undefined''), w3)
                      | Some relayFee \<Rightarrow>
                          andThen (formatUnits ext relayFee d, w3)
                            (\<lambda>relay w4.
                               let w5 = logWithTime (Line (''- Total relay fee: '' @ relay @ unit)) w4
                               in case lpFee f of
                                    None \<Rightarrow> (Inl (TypeError ''Cannot read properties of undefined''), w5)
                                  | Some lp \<Rightarrow>
                                      andThen (formatUnits ext lp d, w5)
                                        (\<lambda>lpText w6.
                                           (Inr (),
                                            logWithTime
                                              (Quote_fee_percentage (relayFee + lp)
                                                 (depositInputAmount (deposit quote)))
                                              (logWithTime (Line (''- LP fee: '' @ lpText @ unit)) w6))))))))"

definition getQuote_try ::
  "config \<Rightarrow> externals \<Rightarrow> operation \<Rightarrow> world \<Rightarrow> (js_error + quote) \<times> world" where
  "getQuote_try cfg ext operation w =
     andThen (parseUnits ext (inputAmount operation) (decimalsFor cfg operation), w)
       (\<lambda>parsedAmount w.
     andThen (createRouteObject (TOKENS cfg) (tokenSymbol operation) (originChainId operation)
                (destinationChainId operation)
                (case useNativeToken operation of None \<Rightarrow> False | Some b \<Rightarrow> b), w)
       (\<lambda>route w.
          let w1 = (if verboseLogging (OPTIONS cfg)
                    then logWithTime (Described ''Getting quote for '' operation) w else w)
          in andThen (client_getQuote ext route parsedAmount, call (Sdk_getQuote route parsedAmount) w1)
               (\<lambda>quote w2.
                  if showQuoteDetails (OPTIONS cfg)
                  then andThen (logQuoteDetails cfg ext operation quote w2) (\<lambda>_ w3. (Inr quote, w3))
                  else (Inr quote, w2))))"

definition getQuote ::
  "config \<Rightarrow> externals \<Rightarrow> operation \<Rightarrow> world \<Rightarrow> (js_error + quote) \<times> world" where
  "getQuote cfg ext operation w =
     try_catch (getQuote_try cfg ext operation w)
       (\<lambda>e w. (Inl e, logWithTime (Line (''Error getting quote: '' @ message e)) w))"

section \<open>Threshold evaluator\<close>

definition bool_text :: "bool \<Rightarrow> string" where
  "bool_text b = (if b then ''true'' else ''false'')"

definition quoteExceedsThresholds ::
  "config \<Rightarrow> externals \<Rightarrow> quote \<Rightarrow> operation \<Rightarrow> world \<Rightarrow> (js_error + bool) \<times> world" where
  "quoteExceedsThresholds cfg ext quote operation w =
     andThen (parseUnits ext (inputAmount operation) (decimalsFor cfg operation), w)
       (\<lambda>parsedInputAmount w.
          let outputPercentage =
                js_divide (Number (outputAmount (deposit quote))) (Number parsedInputAmount);
              meetsOutputThreshold =
                js_ge outputPercentage (minOutputPercentage (THRESHOLDS cfg));
              meetsFillTimeThreshold =
                js_le (estimatedFillTimeSec quote) (maxFillTimeSeconds (THRESHOLDS cfg));
              w1 = logWithTime (Line ''Threshold check:'') w;
              w2 = logWithTime
                     (Threshold_output_percentage outputPercentage
                        (minOutputPercentage (THRESHOLDS cfg))) w1;
              w3 = logWithTime
                     (Threshold_fill_time (estimatedFillTimeSec quote)
                        (maxFillTimeSeconds (THRESHOLDS cfg))) w2;
              w4 = logWithTime
                     (Line (''- Meets all thresholds: ''
                            @ bool_text (meetsOutputThreshold \<and> meetsFillTimeThreshold))) w3
          in (Inr (meetsOutputThreshold \<and> meetsFillTimeThreshold), w4))"

section \<open>Execution driver\<close>

text \<open>
  The \<^verbatim>\<open>onProgress\<close> callback: it logs, and writes the deposit id, the transaction hashes
  and the success flag into \<^verbatim>\<open>result\<close>. The rendered fill time (or its placeholder) is
  left out of the logged line.
\<close>

fun onProgress ::
  "config \<Rightarrow> operation \<Rightarrow> progress \<Rightarrow> exec_result \<times> world \<Rightarrow> exec_result \<times> world" where
  "onProgress cfg operation Approve_pending (result, w) =
     (result, logWithTime (Line ''Approving token transfer...'') w)"
| "onProgress cfg operation (Approve_txSuccess hash) (result, w) =
     (result, logWithTime (Line (''Token approval successful: '' @ hash)) w)"
| "onProgress cfg operation Deposit_pending (result, w) =
     (result, logWithTime (Line ''Sending funds to Across...'') w)"
| "onProgress cfg operation (Deposit_txSuccess i hash) (result, w) =
     (result\<lparr>depositId := Some i, originTxHash := Some hash\<rparr>,
      logWithTime
        (Line (''- Waiting for funds to be bridged to ''
               @ getChainName (CHAINS cfg) (destinationChainId operation) @ ''...''))
        (logWithTime (Line (''- Deposit ID: '' @ int_text i))
           (logWithTime (Line (''- Transaction hash: '' @ hash))
              (logWithTime (Line ''Deposit successful:'') w))))"
| "onProgress cfg operation Fill_pending (result, w) =
     (result, logWithTime (Line ''Relayer processing your transfer on destination chain...'') w)"
| "onProgress cfg operation (Fill_txSuccess receipt fillTxTimestamp) (result, w) =
     (let complete = Line (''Bridge complete! Funds received on ''
                           @ getChainName (CHAINS cfg) (destinationChainId operation));
          (result1, w1) =
            (case receipt of
               Some hash \<Rightarrow>
                 (result\<lparr>success := True, destinationTxHash := Some hash\<rparr>,
                  logWithTime (Line (''- Fill transaction hash: '' @ hash)) (logWithTime complete w))
             | None \<Rightarrow> (result\<lparr>success := True\<rparr>, logWithTime complete w))
      in (result1, if fillTxTimestamp then logWithTime (Line ''- Fill timestamp'') w1 else w1))"
| "onProgress cfg operation Other_progress (result, w) = (result, w)"

definition executeQuote_try ::
  "config \<Rightarrow> externals \<Rightarrow> quote \<Rightarrow> operation \<Rightarrow> world \<Rightarrow> (js_error + exec_result) \<times> world" where
  "executeQuote_try cfg ext quote operation w =
     (let w1 = logWithTime
                 (Line (''Executing bridge transaction for '' @ name operation @ ''...'')) w
      in case CHAINS cfg (originChainId operation) of
           None \<Rightarrow> (Inl (TypeError ''Cannot read properties of undefined''), w1)
         | Some chain \<Rightarrow>
             (let result = \<lparr>success = False, depositId = None, originTxHash = None,
                             destinationTxHash = None, error = None\<rparr>;
                  (events, raised) = client_executeQuote ext (originChainId operation) quote;
                  (result1, w2) =
                    foldl (\<lambda>state p. onProgress cfg operation p state)
                      (result, call (Sdk_executeQuote (originChainId operation) quote) w1) events
              in (case raised of
                    Some e \<Rightarrow> (Inl e, w2)
                  | None \<Rightarrow> (Inr result1, w2))))"

definition executeQuote ::
  "config \<Rightarrow> externals \<Rightarrow> quote \<Rightarrow> operation \<Rightarrow> world \<Rightarrow> (js_error + exec_result) \<times> world" where
  "executeQuote cfg ext quote operation w =
     try_catch (executeQuote_try cfg ext quote operation w)
       (\<lambda>e w.
          (Inr \<lparr>success = False, depositId = None, originTxHash = None,
                destinationTxHash = None, error = Some (message e)\<rparr>,
           logWithTime (Line (''Error executing quote: '' @ message e)) w))"

section \<open>Status poller\<close>

datatype poll_step = Returns bool | Retry

text \<open>The \<^verbatim>\<open>try\<close> block of one pass of the loop, \<open>attempts\<close> already incremented.\<close>

definition pollOnce_try ::
  "config \<Rightarrow> externals \<Rightarrow> nat \<Rightarrow> int \<Rightarrow> nat \<Rightarrow> world \<Rightarrow> (js_error + poll_step) \<times> world" where
  "pollOnce_try cfg ext origin dep attempts w =
     (let w1 = call (Http_get_status origin dep) w
      in case axios_get ext origin dep attempts of
           Request_failed e \<Rightarrow> (Inl e, w1)
         | Body None \<Rightarrow> (Inl (TypeError ''Cannot read properties of undefined''), w1)
         | Body (Some status) \<Rightarrow>
             let statusLower = toLowerCase status;
                 w2 = logWithTime
                        (Line (''Deposit status (attempt '' @ decimal attempts @ ''): '' @ statusLower)) w1
             in if statusLower = ''filled'' \<or> statusLower = ''success''
                then (Inr (Returns True), logWithTime (Line ''Deposit successfully completed!'') w2)
                else if statusLower = ''failed''
                then (Inr (Returns False), logWithTime (Line ''Deposit failed!'') w2)
                else if statusLower = ''fill'' \<or> statusLower = ''filled''
                then (Inr (Returns True),
                      logWithTime (Line (''Deposit successful! (Status: '' @ status @ '')'')) w2)
                else (Inr Retry,
                      call (Sleep (statusPollingInterval (MONITORING cfg)))
                        (logWithTime (Poll_waiting (statusPollingInterval (MONITORING cfg))) w2)))"

definition pollOnce ::
  "config \<Rightarrow> externals \<Rightarrow> nat \<Rightarrow> int \<Rightarrow> nat \<Rightarrow> world \<Rightarrow> (js_error + poll_step) \<times> world" where
  "pollOnce cfg ext origin dep attempts w =
     try_catch (pollOnce_try cfg ext origin dep attempts w)
       (\<lambda>e w.
          (Inr Retry,
           call (Sleep (statusPollingInterval (MONITORING cfg)))
             (logWithTime (Line (''Error polling deposit status: '' @ message e)) w)))"

function pollLoop ::
  "config \<Rightarrow> externals \<Rightarrow> nat \<Rightarrow> int \<Rightarrow> nat \<Rightarrow> world \<Rightarrow> (js_error + bool) \<times> world" where
  "pollLoop cfg ext origin dep attempts w =
     (if attempts < maxPollingAttempts (MONITORING cfg)
      then (case pollOnce cfg ext origin dep (attempts + 1) w of
              (Inl e, w1) \<Rightarrow> (Inl e, w1)
            | (Inr (Returns b), w1) \<Rightarrow> (Inr b, w1)
            | (Inr Retry, w1) \<Rightarrow> pollLoop cfg ext origin dep (attempts + 1) w1)
      else (Inr False,
            logWithTime
              (Line ''Exceeded maximum polling attempts. Please check the deposit status manually.'')
              w))"
  by pat_completeness auto
termination
  by (relation "measure (\<lambda>(cfg, ext, origin, dep, attempts, w).
                  maxPollingAttempts (MONITORING cfg) - attempts)") auto

declare pollLoop.simps [simp del]

definition pollDepositStatus ::
  "config \<Rightarrow> externals \<Rightarrow> nat \<Rightarrow> int \<Rightarrow> world \<Rightarrow> (js_error + bool) \<times> world" where
  "pollDepositStatus cfg ext origin dep w =
     pollLoop cfg ext origin dep 0
       (logWithTime (Line (''Polling status for deposit ID: '' @ int_text dep)) w)"

section \<open>Orchestrator\<close>

text \<open>The object literal \<^verbatim>\<open>{ success: false, error: ... }\<close>.\<close>

definition failure :: "string \<Rightarrow> exec_result" where
  "failure msg =
     \<lparr>success = False, depositId = None, originTxHash = None, destinationTxHash = None,
      error = Some msg\<rparr>"

text \<open>
  The \<^verbatim>\<open>try\<close> block of an operation. In \<^verbatim>\<open>result.depositId && !result.success\<close> the
  deposit id is a number, and 0 is falsy.
\<close>

definition executeBridgeOperation_try ::
  "config \<Rightarrow> externals \<Rightarrow> operation \<Rightarrow> world \<Rightarrow> (js_error + bool) \<times> world" where
  "executeBridgeOperation_try cfg ext operation w =
     andThen (getQuote cfg ext operation
                (logWithTime (Line ''----------------------------------------------------'')
                   (logWithTime (Described [] operation)
                      (logWithTime (Starting_operation (name operation))
                         (logWithTime (Line ''\<newline>----------------------------------------------------'') w)))))
       (\<lambda>quote w.
     andThen (quoteExceedsThresholds cfg ext quote operation w)
       (\<lambda>accepted w.
          if \<not> accepted then
            let w1 = logWithTime (Line ''Quote does not meet thresholds. Operation cancelled.'') w;
                w2 = (if onThresholdFailure (notifications (MONITORING cfg))
                      then logWithTime
                             (Line (''Notification: Thresholds not met for operation '' @ name operation)) w1
                      else w1)
            in andThen (saveTransactionToHistory cfg ext operation
                          (failure ''Quote did not meet thresholds'') (Some quote) w2)
                 (\<lambda>_ w. (Inr False, w))
          else if \<not> autoExecute (OPTIONS cfg) then
            let w1 = logWithTime
                       (Line ''Set OPTIONS.autoExecute = true to automatically execute transactions.'')
                       (logWithTime
                          (Line ''Since auto-execute is disabled, please modify the config.js file to enable it.'')
                          (logWithTime (Line ''\<newline>Quote meets thresholds and is ready to execute.'') w))
            in andThen (saveTransactionToHistory cfg ext operation
                          (failure ''Auto-execute disabled'') (Some quote) w1)
                 (\<lambda>_ w. (Inr False, w))
          else
            let w1 = (if onExecutionStart (notifications (MONITORING cfg))
                      then logWithTime
                             (Line (''Notification: Starting execution of operation '' @ name operation)) w
                      else w)
            in andThen (executeQuote cfg ext quote operation w1)
                 (\<lambda>result w.
               andThen (case depositId result of
                          None \<Rightarrow> (Inr result, w)
                        | Some i \<Rightarrow>
                            if i \<noteq> 0 \<and> \<not> success result
                            then andThen (pollDepositStatus cfg ext (originChainId operation) i w)
                                   (\<lambda>statusResult w.
                                      (Inr (if statusResult then result\<lparr>success := True\<rparr>
                                            else result), w))
                            else (Inr result, w))
                 (\<lambda>result w.
               andThen (saveTransactionToHistory cfg ext operation result (Some quote) w)
                 (\<lambda>_ w.
                    (Inr (success result),
                     if onExecutionComplete (notifications (MONITORING cfg))
                     then logWithTime
                            (Line (''Notification: Operation '' @ name operation
                                   @ '' completed with status: ''
                                   @ (if success result then ''Success'' else ''Failed''))) w
                     else w))))))"

text \<open>The \<^verbatim>\<open>catch\<close> block of an operation: it calls the recorder, outside any \<^verbatim>\<open>try\<close>.\<close>

definition executeBridgeOperation_catch ::
  "config \<Rightarrow> externals \<Rightarrow> operation \<Rightarrow> js_error \<Rightarrow> world \<Rightarrow> (js_error + bool) \<times> world" where
  "executeBridgeOperation_catch cfg ext operation e w =
     (let w1 = logWithTime (Line (''Error executing bridge operation: '' @ message e)) w;
          w2 = (if onError (notifications (MONITORING cfg))
                then logWithTime
                       (Line (''Notification: Error in operation '' @ name operation
                              @ '': '' @ message e)) w1
                else w1)
      in andThen (saveTransactionToHistory cfg ext operation (failure (message e)) None w2)
           (\<lambda>_ w. (Inr False, w)))"

definition executeBridgeOperation ::
  "config \<Rightarrow> externals \<Rightarrow> operation \<Rightarrow> world \<Rightarrow> (js_error + bool) \<times> world" where
  "executeBridgeOperation cfg ext operation w =
     try_catch (executeBridgeOperation_try cfg ext operation w)
       (executeBridgeOperation_catch cfg ext operation)"

text \<open>The \<^verbatim>\<open>for ... of\<close> loop of \<^verbatim>\<open>main\<close>: an operation that raises ends it.\<close>

fun forEachOperation ::
  "config \<Rightarrow> externals \<Rightarrow> operation list \<Rightarrow> world \<Rightarrow> (js_error + unit) \<times> world" where
  "forEachOperation cfg ext [] w = (Inr (), w)"
| "forEachOperation cfg ext (operation # rest) w =
     andThen (executeBridgeOperation cfg ext operation w)
       (\<lambda>_ w1. forEachOperation cfg ext rest w1)"

definition main_try :: "config \<Rightarrow> externals \<Rightarrow> world \<Rightarrow> (js_error + unit) \<times> world" where
  "main_try cfg ext w =
     (let w1 = logWithTime (Line (''Using account: '' @ account_address ext))
                 (logWithTime (Line ''Starting Across Bridge Automation'') w);
          enabledOperations = filter enabled (BRIDGE_OPERATIONS cfg)
      in if length enabledOperations = 0
         then (Inr (),
               logWithTime
                 (Line ''No enabled bridge operations found in config.js. Please enable at least one operation.'')
                 w1)
         else
           let w2 = logWithTime
                      (Line (''Found '' @ decimal (length enabledOperations) @ '' enabled operations:'')) w1;
               w3 = foldl (\<lambda>w (index, operation).
                             logWithTime
                               (Described (decimal (index + 1) @ ''. '' @ name operation @ '': '') operation) w)
                      w2 (enumerate 0 enabledOperations)
           in andThen (forEachOperation cfg ext enabledOperations w3)
                (\<lambda>_ w4. (Inr (), logWithTime (Line ''All operations completed. Exiting.'') w4)))"

datatype process_outcome = Returned | Exited nat

definition main :: "config \<Rightarrow> externals \<Rightarrow> world \<Rightarrow> process_outcome \<times> world" where
  "main cfg ext w =
     (case main_try cfg ext w of
        (Inr _, w1) \<Rightarrow> (Returned, w1)
      | (Inl e, w1) \<Rightarrow>
          (Exited 1, call (Process_exit 1) (logWithTime (Line (''Fatal error: '' @ message e)) w1)))"

section \<open>What a run leaves behind\<close>

text \<open>The requests to the status endpoint and the pauses recorded in the trace.\<close>

fun is_status_request :: "io_event \<Rightarrow> bool" where
  "is_status_request (Http_get_status origin dep) = True"
| "is_status_request ev = False"

fun is_sleep :: "io_event \<Rightarrow> bool" where
  "is_sleep (Sleep ms) = True"
| "is_sleep ev = False"

definition status_requests :: "world \<Rightarrow> nat" where
  "status_requests w = length (filter is_status_request (trace w))"

definition sleeps :: "world \<Rightarrow> nat" where
  "sleeps w = length (filter is_sleep (trace w))"

text \<open>
  The answers of the status endpoint as the specification sorts them: a status in the
  terminal-success set, a status in the terminal-failure set, and everything else (another
  status, a failed request, a body without a status), which is in progress.
\<close>

definition terminal_success :: "http_response \<Rightarrow> bool" where
  "terminal_success r =
     (case r of
        Body (Some status) \<Rightarrow> toLowerCase status \<in> {''filled'', ''success'', ''fill''}
      | _ \<Rightarrow> False)"

definition terminal_failure :: "http_response \<Rightarrow> bool" where
  "terminal_failure r =
     (case r of
        Body (Some status) \<Rightarrow> toLowerCase status \<in> {''failed''}
      | _ \<Rightarrow> False)"

definition in_progress :: "http_response \<Rightarrow> bool" where
  "in_progress r = (\<not> terminal_success r \<and> \<not> terminal_failure r)"

text \<open>The accesses to the history file recorded in the trace.\<close>

fun is_file_access :: "io_event \<Rightarrow> bool" where
  "is_file_access Fs_existsSync = True"
| "is_file_access Fs_readFileSync = True"
| "is_file_access Fs_writeFileSync = True"
| "is_file_access ev = False"

definition file_accesses :: "world \<Rightarrow> nat" where
  "file_accesses w = length (filter is_file_access (trace w))"

text \<open>The lines a step adds to the console.\<close>

definition new_lines :: "world \<Rightarrow> world \<Rightarrow> log_line list" where
  "new_lines w w' = drop (length (console w)) (console w')"

text \<open>
  A relation between the world before and after a step that holds when nothing happens,
  composes, and is not affected by logging: what a step that only logs, and makes calls
  the relation allows, cannot break.
\<close>

definition log_closed :: "(world \<Rightarrow> world \<Rightarrow> bool) \<Rightarrow> bool" where
  "log_closed R \<longleftrightarrow>
     (\<forall>w. R w w) \<and> (\<forall>a b c. R a b \<longrightarrow> R b c \<longrightarrow> R a c) \<and> (\<forall>l w. R w (logWithTime l w))"

text \<open>
  The recorder cannot raise: the history is switched off, or the history file does not
  hold a JSON value other than an array.
\<close>

definition recorder_safe :: "config \<Rightarrow> world \<Rightarrow> bool" where
  "recorder_safe cfg w \<longleftrightarrow>
     \<not> saveHistory (OPTIONS cfg) \<or> (\<forall>e. history_file w \<noteq> Parsed (Json_other e))"

section \<open>Configurations and environments used in examples\<close>

text \<open>The token table of \<^verbatim>\<open>tools/config.js\<close> as shipped.\<close>

definition TOKENS_config :: token_registry where
  "TOKENS_config =
     [''ETH'' \<mapsto>
        [Chain_key 1 \<mapsto> ''0xC02aaA39b223FE8D0A0e5C4F27eAD9083C756Cc2'',
         Chain_key 10 \<mapsto> ''0x4200000000000000000000000000000000000006'',
         Chain_key 42161 \<mapsto> ''0x82aF49447D8a07e3bd95BD0d56f35241523fBab1'',
         Chain_key 8453 \<mapsto> ''0x4200000000000000000000000000000000000006'',
         Chain_key 137 \<mapsto> ''0x7ceB23fD6bC0adD59E62ac25578270cFf1b9f619'',
         Chain_key 324 \<mapsto> ''0x5AEa5775959fBC2557Cc8789bC1bf90A239D9a91'',
         Chain_key 59144 \<mapsto> ''0xe5D7C2a44FfDDf6b295A15c148167daaAf5Cf34f'',
         Chain_key 81457 \<mapsto> ''0x4300000000000000000000000000000000000004'',
         Chain_key 534352 \<mapsto> ''0x5300000000000000000000000000000000000004'',
         Chain_key 34443 \<mapsto> ''0x4200000000000000000000000000000000000006'',
         Chain_key 7777777 \<mapsto> ''0x4200000000000000000000000000000000000006''],
      ''USDC'' \<mapsto>
        [Chain_key 1 \<mapsto> ''0xA0b86991c6218b36c1d19D4a2e9Eb0cE3606eB48'',
         Chain_key 10 \<mapsto> ''0x0b2C639c533813f4Aa9D7837CAf62653d097Ff85'',
         Bridged_key 10 \<mapsto> ''0x7F5c764cBc14f9669B88837ca1490cCa17c31607'',
         Chain_key 42161 \<mapsto> ''0xaf88d065e77c8cC2239327C5EDb3A432268e5831'',
         Bridged_key 42161 \<mapsto> ''0xFF970A61A04b1cA14834A43f5dE4533eBDDB5CC8'',
         Chain_key 8453 \<mapsto> ''0x833589fCD6eDb6E08f4c7C32D4f71b54bdA02913'',
         Bridged_key 8453 \<mapsto> ''0xd9aAEc86B65D86f6A7B5B1b0c42FFA531710b6CA'',
         Chain_key 137 \<mapsto> ''0x3c499c542cEF5E3811e1192ce70d8cC03d5c3359'',
         Bridged_key 137 \<mapsto> ''0x2791Bca1f2de4661ED88A30C99A7a9449Aa84174'',
         Chain_key 324 \<mapsto> ''0x3355df6D4c9C3035724Fd0e3914dE96A5a83aaf4'',
         Chain_key 34443 \<mapsto> ''0xd988097fb8612cc24eeC14542bC03424c656005f'',
         Chain_key 534352 \<mapsto> ''0x06eFdBFf2a14a7c8E15944D1F4A48F9F95F663A4''],
      ''USDT'' \<mapsto>
        [Chain_key 1 \<mapsto> ''0xdAC17F958D2ee523a2206206994597C13D831ec7'',
         Chain_key 10 \<mapsto> ''0x94b008aA00579c1307B0EF2c499aD98a8ce58e58'',
         Chain_key 137 \<mapsto> ''0xc2132D05D31c914a87C6611C10748AEb04B58e8F'',
         Chain_key 42161 \<mapsto> ''0xFd086bC7CD5C481DCC9C85ebE478A1C0b69FCbb9''],
      ''WBTC'' \<mapsto>
        [Chain_key 1 \<mapsto> ''0x2260FAC5E5542a773Aa44fBCfeDf7C193bc2C599'',
         Chain_key 10 \<mapsto> ''0x68f180fcCe6836688e9084f035309E29Bf0A2095'',
         Chain_key 42161 \<mapsto> ''0x2f2a2543B76A4166549F7aaB2e75Bef0aefC5B0f'',
         Chain_key 137 \<mapsto> ''0x1BFD67037B42Cf73acF2047067bd4F2C47D9BfD6'']]"

text \<open>A table in which a token other than USDC lists both variants on chain 10.\<close>

definition dai_registry :: token_registry where
  "dai_registry =
     [''DAI'' \<mapsto> [Chain_key 10 \<mapsto> ''0xDA10009cBd5D07dd0CeCc66161FC93D7c9000da1'',
                   Bridged_key 10 \<mapsto> ''0x7F5c764cBc14f9669B88837ca1490cCa17c31607'']]"

text \<open>A table in which USDC has only the bridged variant on chain 10.\<close>

definition usdc_bridged_only :: token_registry where
  "usdc_bridged_only =
     [''USDC'' \<mapsto> [Bridged_key 10 \<mapsto> ''0x7F5c764cBc14f9669B88837ca1490cCa17c31607'']]"

text \<open>The rest of \<^verbatim>\<open>tools/config.js\<close> as shipped.\<close>

definition CHAINS_config :: "nat \<rightharpoonup> chain_info" where
  "CHAINS_config =
     [1 \<mapsto> \<lparr>chain_name = ''Ethereum'', rpcUrl = ''https://mainnet.gateway.tenderly.co''\<rparr>,
      10 \<mapsto> \<lparr>chain_name = ''Optimism'', rpcUrl = ''https://mainnet.optimism.io''\<rparr>,
      42161 \<mapsto> \<lparr>chain_name = ''Arbitrum'', rpcUrl = ''https://arb1.arbitrum.io/rpc''\<rparr>,
      137 \<mapsto> \<lparr>chain_name = ''Polygon'', rpcUrl = ''https://rpc.ankr.com/polygon''\<rparr>,
      8453 \<mapsto> \<lparr>chain_name = ''Base'', rpcUrl = ''https://mainnet.base.org''\<rparr>,
      324 \<mapsto> \<lparr>chain_name = ''zkSync'', rpcUrl = ''https://mainnet.era.zksync.io''\<rparr>,
      534352 \<mapsto> \<lparr>chain_name = ''Scroll'', rpcUrl = ''https://rpc.scroll.io''\<rparr>,
      34443 \<mapsto> \<lparr>chain_name = ''Mode'', rpcUrl = ''https://mainnet.mode.network''\<rparr>]"

definition TOKEN_DECIMALS_config :: "string \<rightharpoonup> nat" where
  "TOKEN_DECIMALS_config =
     [''ETH'' \<mapsto> 18, ''WETH'' \<mapsto> 18, ''USDC'' \<mapsto> 6, ''USDC.e'' \<mapsto> 6, ''USDT'' \<mapsto> 6,
      ''WBTC'' \<mapsto> 8, ''DAI'' \<mapsto> 18]"

definition eth_optimism_arbitrum :: operation where
  "eth_optimism_arbitrum =
     \<lparr>name = ''ETH Arbitrum to Optimism'', enabled = True, tokenSymbol = ''ETH'',
      originChainId = 10, destinationChainId = 42161, inputAmount = ''0.001'',
      decimals = Some 18, useNativeToken = Some True\<rparr>"

definition usdc_ethereum_polygon :: operation where
  "usdc_ethereum_polygon =
     \<lparr>name = ''USDC Ethereum to Polygon'', enabled = False, tokenSymbol = ''USDC'',
      originChainId = 1, destinationChainId = 137, inputAmount = ''10'',
      decimals = Some 6, useNativeToken = None\<rparr>"

definition eth_base_ethereum :: operation where
  "eth_base_ethereum =
     \<lparr>name = ''ETH Base to Ethereum'', enabled = False, tokenSymbol = ''ETH'',
      originChainId = 8453, destinationChainId = 1, inputAmount = ''0.005'',
      decimals = Some 18, useNativeToken = Some True\<rparr>"

definition shipped_config :: config where
  "shipped_config =
     \<lparr>TOKENS = TOKENS_config,
      CHAINS = CHAINS_config,
      TOKEN_DECIMALS = TOKEN_DECIMALS_config,
      BRIDGE_OPERATIONS = [eth_optimism_arbitrum, usdc_ethereum_polygon, eth_base_ethereum],
      THRESHOLDS = \<lparr>minOutputPercentage = to_double (995 / 1000),
                    maxFillTimeSeconds = Finite 60\<rparr>,
      MONITORING = \<lparr>statusPollingInterval = 10000, maxPollingAttempts = 30,
                    notifications = \<lparr>onThresholdFailure = True, onExecutionStart = True,
                                      onExecutionComplete = True, onError = True\<rparr>\<rparr>,
      OPTIONS = \<lparr>autoExecute = True, saveHistory = True,
                 historyFile = ''transaction_history.json'',
                 verboseLogging = True, showQuoteDetails = True\<rparr>\<rparr>"

text \<open>The shipped configuration with a budget of three polls.\<close>

definition three_polls :: config where
  "three_polls =
     shipped_config\<lparr>MONITORING := (MONITORING shipped_config)\<lparr>maxPollingAttempts := 3\<rparr>\<rparr>"

text \<open>
  An environment: viem converts the two amounts used below, the SDK quotes 0.000995 ETH
  in 45 seconds and executes without a notification, and the status endpoint answers
  pending, pending, filled.
\<close>

definition quote_995 :: quote where
  "quote_995 =
     \<lparr>deposit = \<lparr>depositInputAmount = 1000000000000000, outputAmount = 995000000000000\<rparr>,
      estimatedFillTimeSec = Finite 45,
      fees = Some \<lparr>totalRelayFee = Some 4000000000000, lpFee = Some 1000000000000\<rparr>\<rparr>"

definition pending_pending_filled :: externals where
  "pending_pending_filled =
     \<lparr>parseUnits = (\<lambda>text d.
        if text = ''0.001'' \<and> d = 18 then Inr 1000000000000000
        else if text = ''0.1'' \<and> d = 18 then Inr 100000000000000000
        else Inl (Error ''InvalidDecimalNumberError'')),
      formatUnits = (\<lambda>amount d. Inr (int_text amount)),
      client_getQuote = (\<lambda>route amount. Inr quote_995),
      client_executeQuote = (\<lambda>origin quote. ([], None)),
      axios_get = (\<lambda>origin dep n.
        if n = 3 then Body (Some ''filled'') else Body (Some ''pending'')),
      clock = (\<lambda>n. ''2025-01-01T00:00:00.000Z''),
      account_address = ''0x0000000000000000000000000000000000000001''\<rparr>"

text \<open>A world with an empty console, no call made yet, and no history file.\<close>

definition fresh_world :: world where
  "fresh_world = \<lparr>console = [], trace = [], history_file = Missing, write_failure = None\<rparr>"

text \<open>The same environment, except that the SDK raises after the deposit went through.\<close>

definition execution_fails :: externals where
  "execution_fails =
     pending_pending_filled\<lparr>client_executeQuote := (\<lambda>origin quote.
        ([Deposit_pending, Deposit_txSuccess 7 ''0x5e1f''], Some (Error ''execution reverted'')))\<rparr>"

text \<open>
  An operation over 0.1 ETH at 18 decimals, and a quote for it: 0.0995 ETH out, filled in
  45 seconds.
\<close>

definition eth_tenth :: operation where
  "eth_tenth = eth_optimism_arbitrum\<lparr>inputAmount := ''0.1''\<rparr>"

definition quote_tenth :: quote where
  "quote_tenth =
     \<lparr>deposit = \<lparr>depositInputAmount = 100000000000000000, outputAmount = 99500000000000000\<rparr>,
      estimatedFillTimeSec = Finite 45,
      fees = Some \<lparr>totalRelayFee = Some 400000000000000, lpFee = Some 100000000000000\<rparr>\<rparr>"

text \<open>The shipped configuration with the history switched off.\<close>

definition history_off :: config where
  "history_off = shipped_config\<lparr>OPTIONS := (OPTIONS shipped_config)\<lparr>saveHistory := False\<rparr>\<rparr>"

text \<open>A record as the recorder writes it, and a world whose history file holds it.\<close>

definition earlier_record :: history_record where
  "earlier_record =
     \<lparr>timestamp = ''2024-12-31T23:59:59.000Z'',
      saved_operation = safeOperation eth_optimism_arbitrum,
      saved_result = safeResult (failure ''Quote did not meet thresholds'')\<rparr>"

definition one_record_world :: world where
  "one_record_world = fresh_world\<lparr>history_file := Parsed (Json_array [earlier_record])\<rparr>"

text \<open>
  The environment again, except that the SDK notifies a deposit with id 0 (the first
  deposit of a spoke pool) and returns before any fill notification; and the same with
  deposit id 7.
\<close>

definition deposit_zero :: externals where
  "deposit_zero =
     pending_pending_filled\<lparr>client_executeQuote := (\<lambda>origin quote.
        ([Deposit_pending, Deposit_txSuccess 0 ''0x5e1f''], None))\<rparr>"

definition deposit_seven :: externals where
  "deposit_seven =
     pending_pending_filled\<lparr>client_executeQuote := (\<lambda>origin quote.
        ([Deposit_pending, Deposit_txSuccess 7 ''0x5e1f''], None))\<rparr>"

text \<open>
  The shipped configuration with two operations enabled, and a world whose history file
  holds \<^verbatim>\<open>{}\<close>: JSON, but not an array.
\<close>

definition two_operations :: config where
  "two_operations =
     shipped_config\<lparr>BRIDGE_OPERATIONS :=
       [eth_optimism_arbitrum, eth_base_ethereum\<lparr>enabled := True\<rparr>]\<rparr>"

definition object_history_world :: world where
  "object_history_world =
     fresh_world\<lparr>history_file := Parsed (Json_other (TypeError ''history.push is not a function''))\<rparr>"

section \<open>Token addresses\<close>

lemma getTokenAddress_bridged_hit:
  "useBridged \<Longrightarrow> symbol = ''USDC'' \<Longrightarrow> token_entry tokens symbol (Bridged_key chainId) = Some b
   \<Longrightarrow> getTokenAddress tokens symbol chainId useBridged = Inr b"
  by (simp add: getTokenAddress_def)

lemma getTokenAddress_plain:
  "\<not> useBridged \<or> symbol \<noteq> ''USDC'' \<or> token_entry tokens symbol (Bridged_key chainId) = None
   \<Longrightarrow> getTokenAddress tokens symbol chainId useBridged =
       (case token_entry tokens symbol (Chain_key chainId) of
          Some a \<Rightarrow> Inr a
        | None \<Rightarrow> Inl (NotSupported symbol chainId))"
  by (auto simp add: getTokenAddress_def)

text \<open>
  In the shipped table only USDC has bridged entries, and each of them stands beside a
  plain entry for the same chain.
\<close>

lemma TOKENS_config_bridged:
  "token_entry TOKENS_config symbol (Bridged_key chainId) = Some b
   \<Longrightarrow> symbol = ''USDC'' \<and> token_entry TOKENS_config symbol (Chain_key chainId) \<noteq> None"
  by (simp add: token_entry_def TOKENS_config_def split: if_splits)

text \<open>
  So on the shipped table the bridged lookup behaves as if it were open to every symbol:
  a bridged entry is returned when the flag is set, the plain entry otherwise, and the
  lookup fails exactly when the table has neither.
\<close>

lemma getTokenAddress_TOKENS_config:
  "(useBridged \<and> token_entry TOKENS_config symbol (Bridged_key chainId) = Some b
      \<longrightarrow> getTokenAddress TOKENS_config symbol chainId useBridged = Inr b)
   \<and> ((\<not> useBridged \<or> token_entry TOKENS_config symbol (Bridged_key chainId) = None)
        \<and> token_entry TOKENS_config symbol (Chain_key chainId) = Some a
      \<longrightarrow> getTokenAddress TOKENS_config symbol chainId useBridged = Inr a)
   \<and> ((\<exists>e. getTokenAddress TOKENS_config symbol chainId useBridged = Inl e)
        \<longleftrightarrow> token_entry TOKENS_config symbol (Chain_key chainId) = None
            \<and> token_entry TOKENS_config symbol (Bridged_key chainId) = None)"
proof (cases "token_entry TOKENS_config symbol (Bridged_key chainId)")
  case None
  then show ?thesis
    by (auto simp add: getTokenAddress_def split: option.splits)
next
  case (Some b')
  from TOKENS_config_bridged [OF Some] obtain a' where
    usdc: "symbol = ''USDC''" and plain: "token_entry TOKENS_config symbol (Chain_key chainId) = Some a'"
    by blast
  show ?thesis
    using Some plain unfolding usdc
    by (cases useBridged) (simp_all add: getTokenAddress_def)
qed

text \<open>
  C1, as the code has it. The bridged variant is looked up only for the symbol USDC:
  when the flag is set, the symbol is USDC and the table has a (non-empty) entry under the
  bridged key of the chain, that address is returned; in every other case the plain entry
  of the chain is returned when the table has one; the lookup fails exactly when the
  bridged lookup does not apply or finds nothing and there is no plain entry, and the
  error is then the NotSupported error naming the symbol and the chain.
\<close>

theorem getTokenAddress_resolution:
  "(useBridged \<and> symbol = ''USDC''
      \<and> token_entry tokens symbol (Bridged_key chainId) = Some b
     \<longrightarrow> getTokenAddress tokens symbol chainId useBridged = Inr b)
   \<and> ((\<not> useBridged \<or> symbol \<noteq> ''USDC''
        \<or> token_entry tokens symbol (Bridged_key chainId) = None)
      \<and> token_entry tokens symbol (Chain_key chainId) = Some a
     \<longrightarrow> getTokenAddress tokens symbol chainId useBridged = Inr a)
   \<and> ((\<exists>e. getTokenAddress tokens symbol chainId useBridged = Inl e)
      \<longleftrightarrow> token_entry tokens symbol (Chain_key chainId) = None
          \<and> (\<not> useBridged \<or> symbol \<noteq> ''USDC''
             \<or> token_entry tokens symbol (Bridged_key chainId) = None))
   \<and> (\<forall>e. getTokenAddress tokens symbol chainId useBridged = Inl e
        \<longrightarrow> e = NotSupported symbol chainId)"
  by (auto simp add: getTokenAddress_def split: option.splits)

text \<open>
  On the shipped table: USDC on Optimism with the flag gives the bridged address, without
  the flag the native one, and USDC on a chain the table does not list fails.
\<close>

theorem getTokenAddress_resolution_witness:
  "getTokenAddress TOKENS_config ''USDC'' 10 True = Inr ''0x7F5c764cBc14f9669B88837ca1490cCa17c31607''
   \<and> getTokenAddress TOKENS_config ''USDC'' 10 False = Inr ''0x0b2C639c533813f4Aa9D7837CAf62653d097Ff85''
   \<and> (\<exists>e. getTokenAddress TOKENS_config ''USDC'' 5 True = Inl e)"
proof -
  have bridged: "token_entry TOKENS_config ''USDC'' (Bridged_key 10)
                   = Some ''0x7F5c764cBc14f9669B88837ca1490cCa17c31607''"
    by (simp add: token_entry_def TOKENS_config_def)
  have plain: "token_entry TOKENS_config ''USDC'' (Chain_key 10)
                 = Some ''0x0b2C639c533813f4Aa9D7837CAf62653d097Ff85''"
    by (simp add: token_entry_def TOKENS_config_def)
  have none: "token_entry TOKENS_config ''USDC'' (Chain_key 5) = None"
            "token_entry TOKENS_config ''USDC'' (Bridged_key 5) = None"
    by (simp_all add: token_entry_def TOKENS_config_def)
  show ?thesis
    using bridged plain none
      getTokenAddress_resolution [of True "''USDC''" TOKENS_config 10
        "''0x7F5c764cBc14f9669B88837ca1490cCa17c31607''"]
      getTokenAddress_resolution [of False "''USDC''" TOKENS_config 10 _
        "''0x0b2C639c533813f4Aa9D7837CAf62653d097Ff85''"]
      getTokenAddress_resolution [of True "''USDC''" TOKENS_config 5]
    by simp
qed

text \<open>
  C1 as stated fails on a table that gives another symbol a bridged entry: with the flag
  set, DAI on chain 10 resolves to its plain address although a bridged entry exists. It
  also fails where only the bridged entry exists and the flag is not set: the lookup
  raises although one of the two entries is there.
\<close>

theorem getTokenAddress_bridged_counterexample:
  "token_entry dai_registry ''DAI'' (Bridged_key 10) = Some ''0x7F5c764cBc14f9669B88837ca1490cCa17c31607''
   \<and> getTokenAddress dai_registry ''DAI'' 10 True = Inr ''0xDA10009cBd5D07dd0CeCc66161FC93D7c9000da1''
   \<and> token_entry usdc_bridged_only ''USDC'' (Bridged_key 10) = Some ''0x7F5c764cBc14f9669B88837ca1490cCa17c31607''
   \<and> getTokenAddress usdc_bridged_only ''USDC'' 10 False = Inl (NotSupported ''USDC'' 10)"
  by (simp add: getTokenAddress_def token_entry_def dai_registry_def usdc_bridged_only_def)

section \<open>Status poller\<close>

lemma status_requests_logWithTime [simp]:
  "status_requests (logWithTime l w) = status_requests w"
  by (simp add: status_requests_def logWithTime_def)

lemma sleeps_logWithTime [simp]: "sleeps (logWithTime l w) = sleeps w"
  by (simp add: sleeps_def logWithTime_def)

lemma status_requests_call [simp]:
  "status_requests (call ev w) = status_requests w + (if is_status_request ev then 1 else 0)"
  by (simp add: status_requests_def call_def)

lemma sleeps_call [simp]:
  "sleeps (call ev w) = sleeps w + (if is_sleep ev then 1 else 0)"
  by (simp add: sleeps_def call_def)

lemma pollOnce_success:
  assumes "terminal_success (axios_get ext origin dep n)"
  shows "\<exists>w'. pollOnce cfg ext origin dep n w = (Inr (Returns True), w')
              \<and> status_requests w' = status_requests w + 1 \<and> sleeps w' = sleeps w"
  using assms
  by (auto simp add: pollOnce_def pollOnce_try_def try_catch_def terminal_success_def Let_def
           split: http_response.splits option.splits)

lemma pollOnce_failure:
  assumes "terminal_failure (axios_get ext origin dep n)"
  shows "\<exists>w'. pollOnce cfg ext origin dep n w = (Inr (Returns False), w')
              \<and> status_requests w' = status_requests w + 1 \<and> sleeps w' = sleeps w"
  using assms
  by (auto simp add: pollOnce_def pollOnce_try_def try_catch_def terminal_failure_def Let_def
           split: http_response.splits option.splits)

lemma pollOnce_in_progress:
  assumes "in_progress (axios_get ext origin dep n)"
  shows "\<exists>w'. pollOnce cfg ext origin dep n w = (Inr Retry, w')
              \<and> status_requests w' = status_requests w + 1 \<and> sleeps w' = sleeps w + 1"
  using assms
  by (auto simp add: pollOnce_def pollOnce_try_def try_catch_def in_progress_def
                     terminal_success_def terminal_failure_def Let_def
           split: http_response.splits option.splits)


lemma pollLoop_retry:
  assumes "a < maxPollingAttempts (MONITORING cfg)"
    and "pollOnce cfg ext origin dep (Suc a) w = (Inr Retry, w')"
  shows "pollLoop cfg ext origin dep a w = pollLoop cfg ext origin dep (Suc a) w'"
  using assms by (subst pollLoop.simps) simp

lemma pollLoop_returns:
  assumes "a < maxPollingAttempts (MONITORING cfg)"
    and "pollOnce cfg ext origin dep (Suc a) w = (Inr (Returns b), w')"
  shows "pollLoop cfg ext origin dep a w = (Inr b, w')"
  using assms by (subst pollLoop.simps) simp

lemma pollLoop_exhausted:
  assumes "\<not> a < maxPollingAttempts (MONITORING cfg)"
  shows "pollLoop cfg ext origin dep a w =
           (Inr False,
            logWithTime
              (Line ''Exceeded maximum polling attempts. Please check the deposit status manually.'')
              w)"
  using assms by (subst pollLoop.simps) simp

lemma pollLoop_terminal:
  assumes "a < k" and "k \<le> maxPollingAttempts (MONITORING cfg)"
    and "\<forall>j. a < j \<and> j < k \<longrightarrow> in_progress (axios_get ext origin dep j)"
    and "pollOnce cfg ext origin dep k = (\<lambda>w. (Inr (Returns b), f w))"
    and "\<And>w. status_requests (f w) = status_requests w + 1"
    and "\<And>w. sleeps (f w) = sleeps w"
  shows "fst (pollLoop cfg ext origin dep a w) = Inr b
         \<and> status_requests (snd (pollLoop cfg ext origin dep a w)) = status_requests w + (k - a)
         \<and> sleeps (snd (pollLoop cfg ext origin dep a w)) = sleeps w + (k - a - 1)"
  using assms(1,3)
proof (induction "k - a" arbitrary: a w)
  case 0
  then show ?case by simp
next
  case (Suc n)
  have bound: "a < maxPollingAttempts (MONITORING cfg)"
    using Suc.prems(1) assms(2) by simp
  show ?case
  proof (cases "Suc a = k")
    case True
    have "pollLoop cfg ext origin dep a w = (Inr b, f w)"
      using pollLoop_returns [OF bound] assms(4) True by simp
    then show ?thesis
      using True assms(5,6) by simp
  next
    case False
    then have lt: "Suc a < k" using Suc.prems(1) by simp
    then have "in_progress (axios_get ext origin dep (Suc a))"
      using Suc.prems(2) by simp
    from pollOnce_in_progress [OF this, of cfg w] obtain w' where
      once: "pollOnce cfg ext origin dep (Suc a) w = (Inr Retry, w')"
      and req: "status_requests w' = status_requests w + 1"
      and sl: "sleeps w' = sleeps w + 1"
      by blast
    have step: "pollLoop cfg ext origin dep a w = pollLoop cfg ext origin dep (Suc a) w'"
      using pollLoop_retry [OF bound once] .
    have n: "n = k - Suc a" using Suc.hyps(2) by simp
    have ih: "fst (pollLoop cfg ext origin dep (Suc a) w') = Inr b
         \<and> status_requests (snd (pollLoop cfg ext origin dep (Suc a) w')) = status_requests w' + (k - Suc a)
         \<and> sleeps (snd (pollLoop cfg ext origin dep (Suc a) w')) = sleeps w' + (k - Suc a - 1)"
      using Suc.hyps(1) [OF n lt] Suc.prems(2) by simp
    show ?thesis
      using ih lt unfolding step req sl by (simp, arith)
  qed
qed

lemma pollLoop_budget:
  assumes "\<forall>j. a < j \<and> j \<le> maxPollingAttempts (MONITORING cfg)
               \<longrightarrow> in_progress (axios_get ext origin dep j)"
  shows "fst (pollLoop cfg ext origin dep a w) = Inr False
         \<and> status_requests (snd (pollLoop cfg ext origin dep a w))
             = status_requests w + (maxPollingAttempts (MONITORING cfg) - a)
         \<and> sleeps (snd (pollLoop cfg ext origin dep a w))
             = sleeps w + (maxPollingAttempts (MONITORING cfg) - a)"
  using assms
proof (induction "maxPollingAttempts (MONITORING cfg) - a" arbitrary: a w)
  case 0
  then have "\<not> a < maxPollingAttempts (MONITORING cfg)" by simp
  from pollLoop_exhausted [OF this] show ?case
    using 0 by simp
next
  case (Suc n)
  have bound: "a < maxPollingAttempts (MONITORING cfg)"
    using Suc.hyps(2) by simp
  then have "in_progress (axios_get ext origin dep (Suc a))"
    using Suc.prems by simp
  from pollOnce_in_progress [OF this, of cfg w] obtain w' where
    once: "pollOnce cfg ext origin dep (Suc a) w = (Inr Retry, w')"
    and req: "status_requests w' = status_requests w + 1"
    and sl: "sleeps w' = sleeps w + 1"
    by blast
  have step: "pollLoop cfg ext origin dep a w = pollLoop cfg ext origin dep (Suc a) w'"
    using pollLoop_retry [OF bound once] .
  have n: "n = maxPollingAttempts (MONITORING cfg) - Suc a" using Suc.hyps(2) by simp
  have ih: "fst (pollLoop cfg ext origin dep (Suc a) w') = Inr False
         \<and> status_requests (snd (pollLoop cfg ext origin dep (Suc a) w'))
             = status_requests w' + (maxPollingAttempts (MONITORING cfg) - Suc a)
         \<and> sleeps (snd (pollLoop cfg ext origin dep (Suc a) w'))
             = sleeps w' + (maxPollingAttempts (MONITORING cfg) - Suc a)"
    using Suc.hyps(1) [OF n] Suc.prems by simp
  show ?case
    using ih bound unfolding step req sl by (simp, arith)
qed

lemma pollOnce_never_raises:
  "\<exists>s w'. pollOnce cfg ext origin dep n w = (Inr s, w')"
  by (auto simp add: pollOnce_def pollOnce_try_def try_catch_def Let_def
           split: http_response.splits option.splits)

lemma pollLoop_never_raises:
  "\<exists>b. fst (pollLoop cfg ext origin dep a w) = Inr b"
proof (induction "maxPollingAttempts (MONITORING cfg) - a" arbitrary: a w)
  case 0
  then have "\<not> a < maxPollingAttempts (MONITORING cfg)" by simp
  from pollLoop_exhausted [OF this, of ext origin dep w] show ?case by auto
next
  case (Suc n)
  have bound: "a < maxPollingAttempts (MONITORING cfg)"
    using Suc.hyps(2) by simp
  obtain s w' where once: "pollOnce cfg ext origin dep (Suc a) w = (Inr s, w')"
    using pollOnce_never_raises by blast
  show ?case
  proof (cases s)
    case (Returns b)
    then show ?thesis using pollLoop_returns [OF bound] once by simp
  next
    case Retry
    have n: "n = maxPollingAttempts (MONITORING cfg) - Suc a" using Suc.hyps(2) by simp
    show ?thesis
      using pollLoop_retry [OF bound] once Retry Suc.hyps(1) [OF n] by simp
  qed
qed


text \<open>
  C2. For every sequence of answers of the status endpoint and every budget: when the
  first answer with a terminal status is the \<open>k\<close>-th and \<open>k\<close> is within the budget, the
  poller returns true for a status in {filled, success, fill} and false for failed, after
  exactly \<open>k\<close> requests and \<open>k - 1\<close> pauses; every answer in progress (another status, a
  failed request, a body without a status) costs one request and one pause; when all
  answers within the budget are in progress the poller returns false after as many
  requests and pauses as the budget; and it never raises.
\<close>

theorem pollDepositStatus_outcome:
  "(1 \<le> k \<and> k \<le> maxPollingAttempts (MONITORING cfg)
      \<and> (\<forall>j. 1 \<le> j \<and> j < k \<longrightarrow> in_progress (axios_get ext origin dep j))
      \<and> terminal_success (axios_get ext origin dep k)
     \<longrightarrow> fst (pollDepositStatus cfg ext origin dep w) = Inr True
         \<and> status_requests (snd (pollDepositStatus cfg ext origin dep w)) = status_requests w + k
         \<and> sleeps (snd (pollDepositStatus cfg ext origin dep w)) = sleeps w + (k - 1))
   \<and> (1 \<le> k \<and> k \<le> maxPollingAttempts (MONITORING cfg)
      \<and> (\<forall>j. 1 \<le> j \<and> j < k \<longrightarrow> in_progress (axios_get ext origin dep j))
      \<and> terminal_failure (axios_get ext origin dep k)
     \<longrightarrow> fst (pollDepositStatus cfg ext origin dep w) = Inr False
         \<and> status_requests (snd (pollDepositStatus cfg ext origin dep w)) = status_requests w + k
         \<and> sleeps (snd (pollDepositStatus cfg ext origin dep w)) = sleeps w + (k - 1))
   \<and> ((\<forall>j. 1 \<le> j \<and> j \<le> maxPollingAttempts (MONITORING cfg)
            \<longrightarrow> in_progress (axios_get ext origin dep j))
     \<longrightarrow> fst (pollDepositStatus cfg ext origin dep w) = Inr False
         \<and> status_requests (snd (pollDepositStatus cfg ext origin dep w))
             = status_requests w + maxPollingAttempts (MONITORING cfg)
         \<and> sleeps (snd (pollDepositStatus cfg ext origin dep w))
             = sleeps w + maxPollingAttempts (MONITORING cfg))
   \<and> (\<exists>b. fst (pollDepositStatus cfg ext origin dep w) = Inr b)"
proof (intro conjI impI)
  let ?w0 = "logWithTime (Line (''Polling status for deposit ID: '' @ int_text dep)) w"
  {
    assume h: "1 \<le> k \<and> k \<le> maxPollingAttempts (MONITORING cfg)
      \<and> (\<forall>j. 1 \<le> j \<and> j < k \<longrightarrow> in_progress (axios_get ext origin dep j))
      \<and> terminal_success (axios_get ext origin dep k)"
    define f where "f = (\<lambda>w. snd (pollOnce cfg ext origin dep k w))"
    have once: "pollOnce cfg ext origin dep k = (\<lambda>w. (Inr (Returns True), f w))"
      and req: "\<And>w. status_requests (f w) = status_requests w + 1"
      and sl: "\<And>w. sleeps (f w) = sleeps w"
      using pollOnce_success [of ext origin dep k cfg] h unfolding f_def
      by (auto simp add: fun_eq_iff) (metis snd_conv)+
    have "fst (pollLoop cfg ext origin dep 0 ?w0) = Inr True
         \<and> status_requests (snd (pollLoop cfg ext origin dep 0 ?w0)) = status_requests ?w0 + (k - 0)
         \<and> sleeps (snd (pollLoop cfg ext origin dep 0 ?w0)) = sleeps ?w0 + (k - 0 - 1)"
      using h by (intro pollLoop_terminal [OF _ _ _ once req sl]) auto
    then show "fst (pollDepositStatus cfg ext origin dep w) = Inr True"
      and "status_requests (snd (pollDepositStatus cfg ext origin dep w)) = status_requests w + k"
      and "sleeps (snd (pollDepositStatus cfg ext origin dep w)) = sleeps w + (k - 1)"
      by (simp_all add: pollDepositStatus_def)
  }
  {
    assume h: "1 \<le> k \<and> k \<le> maxPollingAttempts (MONITORING cfg)
      \<and> (\<forall>j. 1 \<le> j \<and> j < k \<longrightarrow> in_progress (axios_get ext origin dep j))
      \<and> terminal_failure (axios_get ext origin dep k)"
    define f where "f = (\<lambda>w. snd (pollOnce cfg ext origin dep k w))"
    have once: "pollOnce cfg ext origin dep k = (\<lambda>w. (Inr (Returns False), f w))"
      and req: "\<And>w. status_requests (f w) = status_requests w + 1"
      and sl: "\<And>w. sleeps (f w) = sleeps w"
      using pollOnce_failure [of ext origin dep k cfg] h unfolding f_def
      by (auto simp add: fun_eq_iff) (metis snd_conv)+
    have "fst (pollLoop cfg ext origin dep 0 ?w0) = Inr False
         \<and> status_requests (snd (pollLoop cfg ext origin dep 0 ?w0)) = status_requests ?w0 + (k - 0)
         \<and> sleeps (snd (pollLoop cfg ext origin dep 0 ?w0)) = sleeps ?w0 + (k - 0 - 1)"
      using h by (intro pollLoop_terminal [OF _ _ _ once req sl]) auto
    then show "fst (pollDepositStatus cfg ext origin dep w) = Inr False"
      and "status_requests (snd (pollDepositStatus cfg ext origin dep w)) = status_requests w + k"
      and "sleeps (snd (pollDepositStatus cfg ext origin dep w)) = sleeps w + (k - 1)"
      by (simp_all add: pollDepositStatus_def)
  }
  {
    assume h: "\<forall>j. 1 \<le> j \<and> j \<le> maxPollingAttempts (MONITORING cfg)
            \<longrightarrow> in_progress (axios_get ext origin dep j)"
    then have "\<forall>j. 0 < j \<and> j \<le> maxPollingAttempts (MONITORING cfg)
               \<longrightarrow> in_progress (axios_get ext origin dep j)"
      by simp
    from pollLoop_budget [OF this, of ?w0]
    show "fst (pollDepositStatus cfg ext origin dep w) = Inr False"
      and "status_requests (snd (pollDepositStatus cfg ext origin dep w))
             = status_requests w + maxPollingAttempts (MONITORING cfg)"
      and "sleeps (snd (pollDepositStatus cfg ext origin dep w))
             = sleeps w + maxPollingAttempts (MONITORING cfg)"
      by (simp_all add: pollDepositStatus_def)
  }
  show "\<exists>b. fst (pollDepositStatus cfg ext origin dep w) = Inr b"
    using pollLoop_never_raises by (simp add: pollDepositStatus_def)
qed

text \<open>
  The answers pending, pending, filled with a budget of three polls: true, after exactly
  three requests and two pauses.
\<close>

theorem pollDepositStatus_outcome_witness:
  "fst (pollDepositStatus three_polls pending_pending_filled 42161 7 fresh_world) = Inr True
   \<and> status_requests (snd (pollDepositStatus three_polls pending_pending_filled 42161 7 fresh_world)) = 3
   \<and> sleeps (snd (pollDepositStatus three_polls pending_pending_filled 42161 7 fresh_world)) = 2"
proof -
  have budget: "maxPollingAttempts (MONITORING three_polls) = 3"
    by (simp add: three_polls_def)
  have third: "terminal_success (axios_get pending_pending_filled 42161 7 3)"
    by (simp add: pending_pending_filled_def terminal_success_def toLowerCase_def lower_char_def)
  have before: "\<forall>j. 1 \<le> j \<and> j < 3 \<longrightarrow> in_progress (axios_get pending_pending_filled 42161 7 j)"
    by (simp add: pending_pending_filled_def in_progress_def terminal_success_def
          terminal_failure_def toLowerCase_def lower_char_def)
  have start: "status_requests fresh_world = 0" "sleeps fresh_world = 0"
    by (simp_all add: status_requests_def sleeps_def fresh_world_def)
  show ?thesis
    using pollDepositStatus_outcome [of 3 three_polls pending_pending_filled 42161 7 fresh_world]
      budget third before start
    by simp
qed

section \<open>Frames\<close>

lemma log_closed_refl: "log_closed R \<Longrightarrow> R w w"
  by (simp add: log_closed_def)

lemma log_closed_trans: "log_closed R \<Longrightarrow> R a b \<Longrightarrow> R b c \<Longrightarrow> R a c"
  unfolding log_closed_def by blast

lemma log_closed_log: "log_closed R \<Longrightarrow> R w w1 \<Longrightarrow> R w (logWithTime l w1)"
  unfolding log_closed_def by blast

lemma log_closed_call:
  "log_closed R \<Longrightarrow> (\<And>w. R w (call ev w)) \<Longrightarrow> R w w1 \<Longrightarrow> R w (call ev w1)"
  unfolding log_closed_def by blast

lemma andThen_frame:
  assumes "log_closed R" and "R w (snd m)" and "\<And>v w1. m = (Inr v, w1) \<Longrightarrow> R w1 (snd (f v w1))"
  shows "R w (snd (andThen m f))"
proof (cases m)
  case (Pair r w1)
  show ?thesis
  proof (cases r)
    case (Inl e)
    then show ?thesis using Pair assms(2) by (simp add: andThen_def)
  next
    case (Inr v)
    from assms(2) Pair have "R w w1" by simp
    moreover have "R w1 (snd (f v w1))" using Pair Inr by (intro assms(3)) simp
    ultimately have "R w (snd (f v w1))" by (rule log_closed_trans [OF assms(1)])
    then show ?thesis using Pair Inr by (simp add: andThen_def)
  qed
qed

lemma try_catch_frame:
  assumes "log_closed R" and "R w (snd body)"
    and "\<And>e w1. body = (Inl e, w1) \<Longrightarrow> R w1 (snd (handler e w1))"
  shows "R w (snd (try_catch body handler))"
proof (cases body)
  case (Pair r w1)
  show ?thesis
  proof (cases r)
    case (Inl e)
    from assms(2) Pair have "R w w1" by simp
    moreover have "R w1 (snd (handler e w1))" using Pair Inl by (intro assms(3)) simp
    ultimately have "R w (snd (handler e w1))" by (rule log_closed_trans [OF assms(1)])
    then show ?thesis using Pair Inl by (simp add: try_catch_def)
  next
    case (Inr v)
    then show ?thesis using Pair assms(2) by (simp add: try_catch_def)
  qed
qed

lemma logQuoteDetails_frame:
  assumes "log_closed R"
  shows "R w (snd (logQuoteDetails cfg ext operation quote w))"
  unfolding logQuoteDetails_def Let_def
  by (auto split: option.splits
        intro!: andThen_frame [OF assms] log_closed_log [OF assms] log_closed_refl [OF assms])

lemma getQuote_frame:
  assumes "log_closed R" and "\<And>r a w. R w (call (Sdk_getQuote r a) w)"
  shows "R w (snd (getQuote cfg ext operation w))"
  unfolding getQuote_def getQuote_try_def Let_def
  by (auto split: option.splits
        intro!: andThen_frame [OF assms(1)] try_catch_frame [OF assms(1)]
          logQuoteDetails_frame [OF assms(1)]
          log_closed_log [OF assms(1)] log_closed_refl [OF assms(1)]
          log_closed_call [OF assms(1) assms(2)])

lemma quoteExceedsThresholds_frame:
  assumes "log_closed R"
  shows "R w (snd (quoteExceedsThresholds cfg ext quote operation w))"
  unfolding quoteExceedsThresholds_def Let_def
  by (auto intro!: andThen_frame [OF assms] log_closed_log [OF assms] log_closed_refl [OF assms])

lemma onProgress_frame:
  assumes "log_closed R" and "R w (snd state)"
  shows "R w (snd (onProgress cfg operation p state))"
  using assms(2)
  by (cases state; cases p)
     (auto simp add: Let_def split: option.splits intro!: log_closed_log [OF assms(1)])

lemma foldl_onProgress_frame:
  assumes "log_closed R" and "R w (snd state)"
  shows "R w (snd (foldl (\<lambda>state p. onProgress cfg operation p state) state events))"
  using assms(2)
  by (induction events arbitrary: state) (simp_all add: onProgress_frame [OF assms(1)])

lemma executeQuote_frame:
  assumes "log_closed R" and "\<And>origin q w. R w (call (Sdk_executeQuote origin q) w)"
  shows "R w (snd (executeQuote cfg ext quote operation w))"
proof -
  have body: "R w (snd (executeQuote_try cfg ext quote operation w))"
  proof (cases "CHAINS cfg (originChainId operation)")
    case None
    then show ?thesis
      by (simp add: executeQuote_try_def log_closed_log [OF assms(1)] log_closed_refl [OF assms(1)])
  next
    case (Some chain)
    obtain events raised where
      sdk: "client_executeQuote ext (originChainId operation) quote = (events, raised)"
      by (cases "client_executeQuote ext (originChainId operation) quote")
    let ?start = "(\<lparr>success = False, depositId = None, originTxHash = None,
                    destinationTxHash = None, error = None\<rparr>,
                   call (Sdk_executeQuote (originChainId operation) quote)
                     (logWithTime
                        (Line (''Executing bridge transaction for '' @ name operation @ ''...'')) w))"
    have "R w (snd ?start)"
      by (simp add: log_closed_call [OF assms(1) assms(2)] log_closed_log [OF assms(1)]
            log_closed_refl [OF assms(1)])
    from foldl_onProgress_frame [OF assms(1) this, of cfg operation events]
    show ?thesis
      using Some sdk
      by (auto simp add: executeQuote_try_def Let_def split: prod.splits option.splits)
  qed
  show ?thesis
    unfolding executeQuote_def
    by (intro try_catch_frame [OF assms(1)] body)
       (simp add: log_closed_log [OF assms(1)] log_closed_refl [OF assms(1)])
qed


lemma pollOnce_frame:
  assumes "log_closed R" and "\<And>origin dep w. R w (call (Http_get_status origin dep) w)"
    and "\<And>ms w. R w (call (Sleep ms) w)"
  shows "R w (snd (pollOnce cfg ext origin dep n w))"
  unfolding pollOnce_def pollOnce_try_def Let_def
  by (auto split: http_response.splits option.splits
        intro!: try_catch_frame [OF assms(1)] log_closed_log [OF assms(1)]
          log_closed_refl [OF assms(1)] log_closed_call [OF assms(1) assms(2)]
          log_closed_call [OF assms(1) assms(3)])

lemma pollLoop_frame:
  assumes "log_closed R" and "\<And>origin dep w. R w (call (Http_get_status origin dep) w)"
    and "\<And>ms w. R w (call (Sleep ms) w)"
  shows "R w (snd (pollLoop cfg ext origin dep a w))"
proof (induction "maxPollingAttempts (MONITORING cfg) - a" arbitrary: a w)
  case 0
  then have "\<not> a < maxPollingAttempts (MONITORING cfg)" by simp
  from pollLoop_exhausted [OF this, of ext origin dep w] show ?case
    by (simp add: log_closed_log [OF assms(1)] log_closed_refl [OF assms(1)])
next
  case (Suc n)
  have bound: "a < maxPollingAttempts (MONITORING cfg)"
    using Suc.hyps(2) by simp
  obtain s w' where once: "pollOnce cfg ext origin dep (Suc a) w = (Inr s, w')"
    using pollOnce_never_raises by blast
  have step: "R w w'"
    using pollOnce_frame [OF assms, of w cfg ext origin dep "Suc a"] once by simp
  show ?case
  proof (cases s)
    case (Returns b)
    then show ?thesis using pollLoop_returns [OF bound] once step by simp
  next
    case Retry
    have n: "n = maxPollingAttempts (MONITORING cfg) - Suc a" using Suc.hyps(2) by simp
    have "R w' (snd (pollLoop cfg ext origin dep (Suc a) w'))"
      using Suc.hyps(1) [OF n] .
    with step have "R w (snd (pollLoop cfg ext origin dep (Suc a) w'))"
      by (rule log_closed_trans [OF assms(1)])
    then show ?thesis
      using pollLoop_retry [OF bound] once Retry by simp
  qed
qed

lemma pollDepositStatus_frame:
  assumes "log_closed R" and "\<And>origin dep w. R w (call (Http_get_status origin dep) w)"
    and "\<And>ms w. R w (call (Sleep ms) w)"
  shows "R w (snd (pollDepositStatus cfg ext origin dep w))"
proof -
  have "R w (logWithTime (Line (''Polling status for deposit ID: '' @ int_text dep)) w)"
    by (simp add: log_closed_log [OF assms(1)] log_closed_refl [OF assms(1)])
  then show ?thesis
    unfolding pollDepositStatus_def
    using pollLoop_frame [OF assms] log_closed_trans [OF assms(1)] by blast
qed

lemma saveTransactionToHistory_disabled:
  "\<not> saveHistory (OPTIONS cfg)
   \<Longrightarrow> saveTransactionToHistory cfg ext operation result quote w = (Inr (), w)"
  by (simp add: saveTransactionToHistory_def)

lemma readHistory_frame:
  assumes "log_closed R" and "\<And>ev w. is_file_access ev \<Longrightarrow> R w (call ev w)"
  shows "R w (snd (readHistory w))"
  unfolding readHistory_def Let_def
  by (auto split: file_state.splits
        intro!: log_closed_log [OF assms(1)] log_closed_refl [OF assms(1)]
          log_closed_call [OF assms(1) assms(2)])

lemma addOutputAmount_frame:
  assumes "log_closed R"
  shows "R w (snd (addOutputAmount cfg ext operation quote sr w))"
  unfolding addOutputAmount_def Let_def
  by (auto split: option.splits sum.splits
        intro!: log_closed_log [OF assms(1)] log_closed_refl [OF assms(1)])

lemma saveTransactionToHistory_frame:
  assumes "log_closed R" and "\<And>ev w. is_file_access ev \<Longrightarrow> R w (call ev w)"
    and "\<And>records w. R w (w\<lparr>history_file := Parsed (Json_array records)\<rparr>)"
  shows "R w (snd (saveTransactionToHistory cfg ext operation result quote w))"
proof (cases "saveHistory (OPTIONS cfg)")
  case False
  then show ?thesis
    by (simp add: saveTransactionToHistory_disabled log_closed_refl [OF assms(1)])
next
  case True
  obtain history w1 where read: "readHistory w = (history, w1)"
    by (cases "readHistory w")
  obtain sr w2 where out: "addOutputAmount cfg ext operation quote (safeResult result) w1 = (sr, w2)"
    by (cases "addOutputAmount cfg ext operation quote (safeResult result) w1")
  have "R w w1"
    using readHistory_frame [OF assms(1,2), of w] read by simp
  moreover have "R w1 w2"
    using addOutputAmount_frame [OF assms(1), of w1 cfg ext operation quote "safeResult result"] out
    by simp
  ultimately have w2: "R w w2"
    by (rule log_closed_trans [OF assms(1)])
  have written: "R w (call Fs_writeFileSync w2)"
    using w2 by (intro log_closed_call [OF assms(1) assms(2)]) simp_all
  have updated: "R w ((call Fs_writeFileSync w2)\<lparr>history_file := Parsed (Json_array records)\<rparr>)" for records
    using written assms(3) log_closed_trans [OF assms(1)] by blast
  show ?thesis
    using True read out w2 written updated
    by (auto simp add: saveTransactionToHistory_def Let_def
          split: json_value.splits option.splits
          intro!: log_closed_log [OF assms(1)])
qed


lemma executeBridgeOperation_try_frame:
  assumes "log_closed R"
    and "\<And>r a w. R w (call (Sdk_getQuote r a) w)"
    and "\<And>origin q w. R w (call (Sdk_executeQuote origin q) w)"
    and "\<And>quote result i w1 w2 w3 w4.
           getQuote cfg ext operation w1 = (Inr quote, w2)
           \<Longrightarrow> executeQuote cfg ext quote operation w3 = (Inr result, w4)
           \<Longrightarrow> depositId result = Some i \<Longrightarrow> i \<noteq> 0 \<Longrightarrow> \<not> success result
           \<Longrightarrow> R w4 (snd (pollDepositStatus cfg ext (originChainId operation) i w4))"
    and "\<And>result quote w. R w (snd (saveTransactionToHistory cfg ext operation result quote w))"
  shows "R w (snd (executeBridgeOperation_try cfg ext operation w))"
proof -
  note step = log_closed_log [OF assms(1)] log_closed_refl [OF assms(1)]
  have quoted: "R w0 w1 \<Longrightarrow> R w0 (snd (getQuote cfg ext operation w1))" for w0 w1
    using getQuote_frame [OF assms(1,2)] log_closed_trans [OF assms(1)] by blast
  show ?thesis
    unfolding executeBridgeOperation_try_def Let_def
  proof (intro andThen_frame [OF assms(1)] quoted step, goal_cases)
    case (1 quote w1)
    show ?case
      by (rule quoteExceedsThresholds_frame [OF assms(1)])
  next
    case (2 quote w1 accepted w2)
    show ?case
    proof (cases "accepted")
      case False
      then show ?thesis
        by (auto intro!: andThen_frame [OF assms(1)] step
              log_closed_trans [OF assms(1) _ assms(5)])
    next
      case True
      show ?thesis
      proof (cases "autoExecute (OPTIONS cfg)")
        case False
        then show ?thesis
          using True
          by (auto intro!: andThen_frame [OF assms(1)] step
                log_closed_trans [OF assms(1) _ assms(5)])
      next
        case auto: True
        have executed: "R w0 w3 \<Longrightarrow> R w0 (snd (executeQuote cfg ext quote operation w3))" for w0 w3
          using executeQuote_frame [OF assms(1,3)] log_closed_trans [OF assms(1)] by blast
        show ?thesis
          using True auto 2(1)
          apply simp
          apply (intro andThen_frame [OF assms(1)] executed conjI impI step)
              apply (auto split: option.splits intro!: andThen_frame [OF assms(1)] step assms(5)
                          intro: assms(4))
          done
      qed
    qed
  qed
qed


lemma executeBridgeOperation_catch_frame:
  assumes "log_closed R"
    and "\<And>result quote w. R w (snd (saveTransactionToHistory cfg ext operation result quote w))"
  shows "R w (snd (executeBridgeOperation_catch cfg ext operation e w))"
  unfolding executeBridgeOperation_catch_def Let_def
  by (auto intro!: andThen_frame [OF assms(1)] log_closed_log [OF assms(1)]
        log_closed_refl [OF assms(1)] log_closed_trans [OF assms(1) _ assms(2)])

lemma executeBridgeOperation_frame:
  assumes "log_closed R"
    and "\<And>r a w. R w (call (Sdk_getQuote r a) w)"
    and "\<And>origin q w. R w (call (Sdk_executeQuote origin q) w)"
    and "\<And>quote result i w1 w2 w3 w4.
           getQuote cfg ext operation w1 = (Inr quote, w2)
           \<Longrightarrow> executeQuote cfg ext quote operation w3 = (Inr result, w4)
           \<Longrightarrow> depositId result = Some i \<Longrightarrow> i \<noteq> 0 \<Longrightarrow> \<not> success result
           \<Longrightarrow> R w4 (snd (pollDepositStatus cfg ext (originChainId operation) i w4))"
    and "\<And>result quote w. R w (snd (saveTransactionToHistory cfg ext operation result quote w))"
  shows "R w (snd (executeBridgeOperation cfg ext operation w))"
  unfolding executeBridgeOperation_def
  by (intro try_catch_frame [OF assms(1)] executeBridgeOperation_try_frame [OF assms]
        executeBridgeOperation_catch_frame [OF assms(1) assms(5)])

lemma forEachOperation_frame:
  assumes "log_closed R"
    and "\<And>operation w. R w (snd (executeBridgeOperation cfg ext operation w))"
  shows "R w (snd (forEachOperation cfg ext operations w))"
proof (induction operations arbitrary: w)
  case Nil
  show ?case by (simp add: log_closed_refl [OF assms(1)])
next
  case (Cons operation rest)
  show ?case
    by (simp, intro andThen_frame [OF assms(1)] assms(2) Cons.IH)
qed

lemma foldl_frame:
  assumes "log_closed R" and "\<And>w x. R w (h w x)" and "R w w1"
  shows "R w (foldl h w1 xs)"
  using assms(3)
proof (induction xs arbitrary: w1)
  case Nil
  then show ?case by simp
next
  case (Cons x xs)
  have "R w (h w1 x)"
    using Cons.prems assms(2) log_closed_trans [OF assms(1)] by blast
  then show ?case using Cons.IH by simp
qed

lemma main_try_frame:
  assumes "log_closed R"
    and "\<And>operation w. R w (snd (executeBridgeOperation cfg ext operation w))"
  shows "R w (snd (main_try cfg ext w))"
proof -
  note step = log_closed_log [OF assms(1)] log_closed_refl [OF assms(1)]
  have run: "R w (snd (forEachOperation cfg ext operations w1))" if "R w w1" for w1 operations
    using that forEachOperation_frame [OF assms] log_closed_trans [OF assms(1)] by blast
  show ?thesis
    unfolding main_try_def Let_def
    by (auto intro!: andThen_frame [OF assms(1)] step run foldl_frame [OF assms(1)])
qed

lemma main_frame:
  assumes "log_closed R"
    and "\<And>operation w. R w (snd (executeBridgeOperation cfg ext operation w))"
    and "\<And>code w. R w (call (Process_exit code) w)"
  shows "R w (snd (main cfg ext w))"
proof -
  obtain r w1 where tried: "main_try cfg ext w = (r, w1)"
    by (cases "main_try cfg ext w")
  have "R w w1"
    using main_try_frame [OF assms(1,2), of w] tried by simp
  then show ?thesis
    using tried
    by (cases r)
       (auto simp add: main_def
          intro!: log_closed_call [OF assms(1) assms(3)] log_closed_log [OF assms(1)])
qed

section \<open>Execution driver\<close>

lemma executeQuote_try_raises:
  assumes "CHAINS cfg (originChainId operation) = Some chain"
    and "snd (client_executeQuote ext (originChainId operation) quote) = Some e"
  shows "\<exists>w'. executeQuote_try cfg ext quote operation w = (Inl e, w')"
  using assms
  by (auto simp add: executeQuote_try_def Let_def split: prod.splits)

text \<open>
  C7. For every quote and operation: when the external execution call raises,
  \<^verbatim>\<open>executeQuote\<close> logs the error and returns a result with success = false and the
  message of the exception as its error; and whatever happens in its body, it returns a
  result: no exception leaves it.
\<close>

theorem executeQuote_catches:
  "(CHAINS cfg (originChainId operation) = Some chain
      \<and> snd (client_executeQuote ext (originChainId operation) quote) = Some e
     \<longrightarrow> fst (executeQuote cfg ext quote operation w)
           = Inr \<lparr>success = False, depositId = None, originTxHash = None,
                  destinationTxHash = None, error = Some (message e)\<rparr>
         \<and> last (console (snd (executeQuote cfg ext quote operation w)))
           = Line (''Error executing quote: '' @ message e))
   \<and> (\<exists>result. fst (executeQuote cfg ext quote operation w) = Inr result)"
proof (intro conjI impI)
  assume h: "CHAINS cfg (originChainId operation) = Some chain
      \<and> snd (client_executeQuote ext (originChainId operation) quote) = Some e"
  then obtain w' where "executeQuote_try cfg ext quote operation w = (Inl e, w')"
    using executeQuote_try_raises by blast
  then show "fst (executeQuote cfg ext quote operation w)
           = Inr \<lparr>success = False, depositId = None, originTxHash = None,
                  destinationTxHash = None, error = Some (message e)\<rparr>"
    and "last (console (snd (executeQuote cfg ext quote operation w)))
           = Line (''Error executing quote: '' @ message e)"
    by (simp_all add: executeQuote_def try_catch_def logWithTime_def)
next
  show "\<exists>result. fst (executeQuote cfg ext quote operation w) = Inr result"
    by (cases "executeQuote_try cfg ext quote operation w"; cases "fst (executeQuote_try cfg ext quote operation w)")
       (auto simp add: executeQuote_def try_catch_def)
qed

text \<open>An execution that raises \<^verbatim>\<open>execution reverted\<close> after the deposit notification.\<close>

theorem executeQuote_catches_witness:
  "fst (executeQuote shipped_config execution_fails quote_995 eth_optimism_arbitrum fresh_world)
     = Inr \<lparr>success = False, depositId = None, originTxHash = None,
            destinationTxHash = None, error = Some ''execution reverted''\<rparr>"
proof -
  have chain: "CHAINS shipped_config (originChainId eth_optimism_arbitrum)
                 = Some \<lparr>chain_name = ''Optimism'', rpcUrl = ''https://mainnet.optimism.io''\<rparr>"
    by (simp add: shipped_config_def CHAINS_config_def eth_optimism_arbitrum_def)
  have raises: "snd (client_executeQuote execution_fails (originChainId eth_optimism_arbitrum) quote_995)
                  = Some (Error ''execution reverted'')"
    by (simp add: execution_fails_def)
  show ?thesis
    using executeQuote_catches [of shipped_config eth_optimism_arbitrum _ execution_fails quote_995
            "Error ''execution reverted''" fresh_world] chain raises
    by simp
qed


section \<open>Threshold evaluator\<close>

lemma floor_rat_numeral:
  "\<lfloor>(numeral a :: rat) / numeral b\<rfloor> = numeral a div numeral b"
  using floor_divide_of_int_eq [of "numeral a" "numeral b", where ?'a = rat] by simp

lemma binade_995: "binade (199 / 200) = - 1"
  by (simp add: binade_def compute_bitlen)

lemma to_double_995: "to_double (199 / 200) = Finite (8962163258467287 / 9007199254740992)"
  by (simp add: to_double_def binade_995 round_half_even_def Let_def floor_rat_numeral)

lemma to_double_not_NaN [simp]: "to_double x \<noteq> NaN"
  by (simp add: to_double_def Let_def)

lemma js_le_refl: "x \<noteq> NaN \<Longrightarrow> js_le x x"
  by (cases x) simp_all

lemma js_le_trans: "js_le x y \<Longrightarrow> js_le y z \<Longrightarrow> js_le x z"
  by (cases x; cases y; cases z) simp_all


lemma Number_995e14: "Number 99500000000000000 = Finite 99500000000000000"
proof -
  have "binade 99500000000000000 = 56"
    by (simp add: binade_def compute_bitlen)
  then show ?thesis
    by (simp add: Number_def to_double_def round_half_even_def Let_def)
qed

lemma Number_1e17: "Number 100000000000000000 = Finite 100000000000000000"
proof -
  have "binade 100000000000000000 = 56"
    by (simp add: binade_def compute_bitlen)
  then show ?thesis
    by (simp add: Number_def to_double_def round_half_even_def Let_def)
qed

text \<open>The value of the evaluator: it raises when \<^verbatim>\<open>parseUnits\<close> does, else it is the verdict.\<close>

lemma quoteExceedsThresholds_value:
  "fst (quoteExceedsThresholds cfg ext quote operation w) =
     (case parseUnits ext (inputAmount operation) (decimalsFor cfg operation) of
        Inl e \<Rightarrow> Inl e
      | Inr parsedInputAmount \<Rightarrow>
          Inr (js_ge (js_divide (Number (outputAmount (deposit quote))) (Number parsedInputAmount))
                 (minOutputPercentage (THRESHOLDS cfg))
               \<and> js_le (estimatedFillTimeSec quote) (maxFillTimeSeconds (THRESHOLDS cfg))))"
  by (simp add: quoteExceedsThresholds_def andThen_def Let_def split: sum.splits)

lemma decimalsFor_THRESHOLDS [simp]:
  "decimalsFor (cfg\<lparr>THRESHOLDS := t\<rparr>) operation = decimalsFor cfg operation"
  by (simp add: decimalsFor_def split: option.splits)

lemma tenth_parsed:
  "parseUnits pending_pending_filled (inputAmount eth_tenth) (decimalsFor shipped_config eth_tenth)
     = Inr 100000000000000000"
  by (simp add: pending_pending_filled_def eth_tenth_def eth_optimism_arbitrum_def
        decimalsFor_def)

text \<open>
  C4. The evaluator accepts a quote if and only if \<^verbatim>\<open>parseUnits\<close> converts the
  operation's input amount at the operation's decimals (the override when it is set and
  not 0, else \<^verbatim>\<open>getTokenDecimals\<close> of the symbol) and, in the number arithmetic of the
  source, \<^verbatim>\<open>Number(outputAmount) / Number(parsedInputAmount) >= minOutputPercentage\<close> and
  \<^verbatim>\<open>estimatedFillTimeSec <= maxFillTimeSeconds\<close>. The input amount carried by the quote
  plays no part in the verdict.
\<close>

theorem quoteExceedsThresholds_verdict:
  "(fst (quoteExceedsThresholds cfg ext quote operation w) = Inr True
      \<longleftrightarrow> (\<exists>parsedInputAmount.
             parseUnits ext (inputAmount operation) (decimalsFor cfg operation) = Inr parsedInputAmount
             \<and> js_ge (js_divide (Number (outputAmount (deposit quote))) (Number parsedInputAmount))
                 (minOutputPercentage (THRESHOLDS cfg))
             \<and> js_le (estimatedFillTimeSec quote) (maxFillTimeSeconds (THRESHOLDS cfg))))
   \<and> fst (quoteExceedsThresholds cfg ext
             (quote\<lparr>deposit := (deposit quote)\<lparr>depositInputAmount := other\<rparr>\<rparr>) operation w)
       = fst (quoteExceedsThresholds cfg ext quote operation w)
   \<and> (\<forall>d. decimals operation = Some d \<and> d \<noteq> 0 \<longrightarrow> decimalsFor cfg operation = d)
   \<and> (decimals operation = None \<or> decimals operation = Some 0
        \<longrightarrow> decimalsFor cfg operation = getTokenDecimals (TOKEN_DECIMALS cfg) (tokenSymbol operation))"
proof (intro conjI)
  show "fst (quoteExceedsThresholds cfg ext quote operation w) = Inr True
      \<longleftrightarrow> (\<exists>parsedInputAmount.
             parseUnits ext (inputAmount operation) (decimalsFor cfg operation) = Inr parsedInputAmount
             \<and> js_ge (js_divide (Number (outputAmount (deposit quote))) (Number parsedInputAmount))
                 (minOutputPercentage (THRESHOLDS cfg))
             \<and> js_le (estimatedFillTimeSec quote) (maxFillTimeSeconds (THRESHOLDS cfg)))"
    unfolding quoteExceedsThresholds_value by (auto split: sum.splits)
  show "fst (quoteExceedsThresholds cfg ext
             (quote\<lparr>deposit := (deposit quote)\<lparr>depositInputAmount := other\<rparr>\<rparr>) operation w)
       = fst (quoteExceedsThresholds cfg ext quote operation w)"
    unfolding quoteExceedsThresholds_value by (simp split: sum.splits)
  show "\<forall>d. decimals operation = Some d \<and> d \<noteq> 0 \<longrightarrow> decimalsFor cfg operation = d"
    by (simp add: decimalsFor_def)
  show "decimals operation = None \<or> decimals operation = Some 0
        \<longrightarrow> decimalsFor cfg operation = getTokenDecimals (TOKEN_DECIMALS cfg) (tokenSymbol operation)"
    by (auto simp add: decimalsFor_def)
qed

text \<open>
  Input 0.1 at 18 decimals, output 0.0995 * 10^18, fill time 45 s, thresholds 0.995 and
  60 s: accepted. With a maximum fill time of 30 s the same quote is rejected.
\<close>

theorem quoteExceedsThresholds_verdict_witness:
  "fst (quoteExceedsThresholds shipped_config pending_pending_filled quote_tenth eth_tenth fresh_world)
     = Inr True
   \<and> fst (quoteExceedsThresholds
            (shipped_config\<lparr>THRESHOLDS := (THRESHOLDS shipped_config)\<lparr>maxFillTimeSeconds := Finite 30\<rparr>\<rparr>)
            pending_pending_filled quote_tenth eth_tenth fresh_world)
     \<noteq> Inr True"
proof -
  have ratio: "js_ge (js_divide (Number (outputAmount (deposit quote_tenth))) (Number 100000000000000000))
                 (minOutputPercentage (THRESHOLDS shipped_config))"
    by (simp add: quote_tenth_def shipped_config_def Number_995e14 Number_1e17 js_ge_def js_le_refl)
  have fill: "js_le (estimatedFillTimeSec quote_tenth) (maxFillTimeSeconds (THRESHOLDS shipped_config))"
    by (simp add: quote_tenth_def shipped_config_def)
  have slow: "\<not> js_le (estimatedFillTimeSec quote_tenth) (Finite 30)"
    by (simp add: quote_tenth_def)
  show ?thesis
    using tenth_parsed ratio fill slow
      quoteExceedsThresholds_verdict [of shipped_config pending_pending_filled quote_tenth eth_tenth
        fresh_world]
      quoteExceedsThresholds_verdict
        [of "shipped_config\<lparr>THRESHOLDS := (THRESHOLDS shipped_config)\<lparr>maxFillTimeSeconds := Finite 30\<rparr>\<rparr>"
            pending_pending_filled quote_tenth eth_tenth fresh_world]
    by simp
qed

text \<open>
  C5. For a fixed quote and operation, and the fill-time threshold held fixed: a quote
  accepted at the minimum-output threshold \<open>m\<close> is accepted at every \<open>m'\<close> with
  \<^verbatim>\<open>m' <= m\<close>; raising the threshold never turns a reject into an accept.
\<close>

theorem quoteExceedsThresholds_monotone:
  "fst (quoteExceedsThresholds (cfg\<lparr>THRESHOLDS := (THRESHOLDS cfg)\<lparr>minOutputPercentage := m\<rparr>\<rparr>)
          ext quote operation w) = Inr True
   \<and> js_le m' m
   \<longrightarrow> fst (quoteExceedsThresholds (cfg\<lparr>THRESHOLDS := (THRESHOLDS cfg)\<lparr>minOutputPercentage := m'\<rparr>\<rparr>)
          ext quote operation w) = Inr True"
  unfolding quoteExceedsThresholds_value
  by (auto simp add: js_ge_def split: sum.splits intro: js_le_trans)

text \<open>The quote accepted at 0.995 above is accepted at 0.5.\<close>

theorem quoteExceedsThresholds_monotone_witness:
  "fst (quoteExceedsThresholds
          (shipped_config\<lparr>THRESHOLDS := (THRESHOLDS shipped_config)\<lparr>minOutputPercentage := Finite (1 / 2)\<rparr>\<rparr>)
          pending_pending_filled quote_tenth eth_tenth fresh_world) = Inr True"
proof -
  have at_995: "fst (quoteExceedsThresholds
          (shipped_config\<lparr>THRESHOLDS := (THRESHOLDS shipped_config)\<lparr>minOutputPercentage := to_double (995 / 1000)\<rparr>\<rparr>)
          pending_pending_filled quote_tenth eth_tenth fresh_world) = Inr True"
    unfolding quoteExceedsThresholds_value
    using tenth_parsed
    by (simp add: quote_tenth_def shipped_config_def Number_995e14 Number_1e17 js_ge_def js_le_refl)
  have below: "js_le (Finite (1 / 2)) (to_double (995 / 1000))"
    by (simp add: to_double_995)
  show ?thesis
    using quoteExceedsThresholds_monotone [where cfg = shipped_config
            and m = "to_double (995 / 1000)" and m' = "Finite (1 / 2)"
            and ext = pending_pending_filled and quote = quote_tenth and operation = eth_tenth
            and w = fresh_world]
      at_995 below
    by simp
qed

section \<open>History recorder\<close>

lemma keeps_file_closed:
  "log_closed (\<lambda>w w'. history_file w' = history_file w \<and> write_failure w' = write_failure w
                       \<and> file_accesses w' = file_accesses w)"
  by (simp add: log_closed_def logWithTime_def file_accesses_def)

lemma keeps_file_call:
  "\<not> is_file_access ev
   \<Longrightarrow> history_file (call ev w) = history_file w \<and> write_failure (call ev w) = write_failure w
       \<and> file_accesses (call ev w) = file_accesses w"
  by (simp add: call_def file_accesses_def)

lemma executeBridgeOperation_keeps_file:
  assumes "\<not> saveHistory (OPTIONS cfg)"
  shows "history_file (snd (executeBridgeOperation cfg ext operation w)) = history_file w
         \<and> write_failure (snd (executeBridgeOperation cfg ext operation w)) = write_failure w
         \<and> file_accesses (snd (executeBridgeOperation cfg ext operation w)) = file_accesses w"
  by (rule executeBridgeOperation_frame [OF keeps_file_closed])
     (simp_all add: keeps_file_call saveTransactionToHistory_disabled [OF assms]
        pollDepositStatus_frame [OF keeps_file_closed])

text \<open>
  C9. With \<^verbatim>\<open>OPTIONS.saveHistory\<close> disabled the recorder returns at once, leaving the world
  as it was: no access to the history file, no record, no line logged. So over a whole run
  of \<^verbatim>\<open>main\<close>, whatever the operations and their outcomes, the history file is as it was
  and has not been accessed.
\<close>

theorem saveHistory_disabled:
  "\<not> saveHistory (OPTIONS cfg)
   \<longrightarrow> saveTransactionToHistory cfg ext operation result quote w = (Inr (), w)
       \<and> history_file (snd (executeBridgeOperation cfg ext operation w)) = history_file w
       \<and> file_accesses (snd (executeBridgeOperation cfg ext operation w)) = file_accesses w
       \<and> history_file (snd (main cfg ext w)) = history_file w
       \<and> file_accesses (snd (main cfg ext w)) = file_accesses w"
proof
  assume off: "\<not> saveHistory (OPTIONS cfg)"
  have run: "history_file (snd (main cfg ext w)) = history_file w
         \<and> write_failure (snd (main cfg ext w)) = write_failure w
         \<and> file_accesses (snd (main cfg ext w)) = file_accesses w"
    by (rule main_frame [OF keeps_file_closed])
       (simp_all add: executeBridgeOperation_keeps_file [OF off] keeps_file_call)
  show "saveTransactionToHistory cfg ext operation result quote w = (Inr (), w)
       \<and> history_file (snd (executeBridgeOperation cfg ext operation w)) = history_file w
       \<and> file_accesses (snd (executeBridgeOperation cfg ext operation w)) = file_accesses w
       \<and> history_file (snd (main cfg ext w)) = history_file w
       \<and> file_accesses (snd (main cfg ext w)) = file_accesses w"
    using run executeBridgeOperation_keeps_file [OF off, of ext operation w]
      saveTransactionToHistory_disabled [OF off]
    by simp
qed

text \<open>
  A run of the shipped operations with the history switched off, over a history file
  that holds one record: the file is as it was, and was never accessed.
\<close>

theorem saveHistory_disabled_witness:
  "history_file (snd (main history_off pending_pending_filled one_record_world))
     = Parsed (Json_array [earlier_record])
   \<and> file_accesses (snd (main history_off pending_pending_filled one_record_world)) = 0"
proof -
  have off: "\<not> saveHistory (OPTIONS history_off)"
    by (simp add: history_off_def)
  have before: "history_file one_record_world = Parsed (Json_array [earlier_record])"
    "file_accesses one_record_world = 0"
    by (simp_all add: one_record_world_def fresh_world_def file_accesses_def)
  show ?thesis
    using saveHistory_disabled [of history_off pending_pending_filled _ _ _ one_record_world]
      off before
    by simp
qed

section \<open>Execution errors and polling\<close>

lemma fst_andThen:
  "fst (andThen (r, w) f) = (case r of Inl e \<Rightarrow> Inl e | Inr v \<Rightarrow> fst (f v w))"
  by (simp add: andThen_def split: sum.splits)

lemma logQuoteDetails_value:
  "fst (logQuoteDetails cfg ext operation quote w) = fst (logQuoteDetails cfg ext operation quote w')"
  by (simp add: logQuoteDetails_def Let_def fst_andThen split: sum.splits option.splits)

lemma getQuote_try_value:
  "fst (getQuote_try cfg ext operation w) = fst (getQuote_try cfg ext operation w')"
proof -
  have details: "fst (andThen (logQuoteDetails cfg ext operation q w1) (\<lambda>_ w3. (Inr q, w3)))
               = fst (andThen (logQuoteDetails cfg ext operation q w2) (\<lambda>_ w3. (Inr q, w3)))" for q w1 w2
    using logQuoteDetails_value [of cfg ext operation q w1 w2]
    by (cases "logQuoteDetails cfg ext operation q w1"; cases "logQuoteDetails cfg ext operation q w2")
       (auto simp add: andThen_def split: sum.splits)
  show ?thesis
    by (simp add: getQuote_try_def Let_def fst_andThen details split: sum.splits)
qed

lemma getQuote_value:
  "fst (getQuote cfg ext operation w) = fst (getQuote cfg ext operation w')"
  using getQuote_try_value [of cfg ext operation w w']
  by (cases "getQuote_try cfg ext operation w"; cases "getQuote_try cfg ext operation w'")
     (auto simp add: getQuote_def try_catch_def split: sum.splits)


lemma executeQuote_raises_result:
  assumes "snd (client_executeQuote ext (originChainId operation) quote) = Some e"
  shows "\<exists>msg w1. executeQuote cfg ext quote operation w
           = (Inr \<lparr>success = False, depositId = None, originTxHash = None,
                   destinationTxHash = None, error = Some msg\<rparr>, w1)"
proof -
  have "\<exists>e' w1. executeQuote_try cfg ext quote operation w = (Inl e', w1)"
    using assms
    by (auto simp add: executeQuote_try_def Let_def split: prod.splits option.splits)
  then show ?thesis
    by (auto simp add: executeQuote_def try_catch_def)
qed

lemma status_requests_closed:
  "log_closed (\<lambda>w w'. status_requests w' = status_requests w)"
  by (simp add: log_closed_def)

lemma status_requests_history_file [simp]:
  "status_requests (w\<lparr>history_file := x\<rparr>) = status_requests w"
  by (simp add: status_requests_def)

lemma saveTransactionToHistory_status_requests:
  "status_requests (snd (saveTransactionToHistory cfg ext operation result quote w))
     = status_requests w"
  by (rule saveTransactionToHistory_frame [OF status_requests_closed]) (auto elim: is_file_access.elims)

text \<open>
  C10. When the external execution call raises for the quote of an operation, the result
  that \<^verbatim>\<open>executeQuote\<close> returns has no deposit id (it holds success = false and an error
  message, nothing else), also when the deposit notification had arrived before; the
  polling guard is therefore false, and the operation makes no request to the status
  endpoint.
\<close>

theorem execution_error_no_polling:
  "fst (getQuote cfg ext operation w) = Inr quote
   \<and> snd (client_executeQuote ext (originChainId operation) quote) = Some e
   \<longrightarrow> (\<exists>msg. fst (executeQuote cfg ext quote operation w')
                 = Inr \<lparr>success = False, depositId = None, originTxHash = None,
                        destinationTxHash = None, error = Some msg\<rparr>)
       \<and> status_requests (snd (executeBridgeOperation cfg ext operation w)) = status_requests w"
proof (intro impI conjI)
  assume h: "fst (getQuote cfg ext operation w) = Inr quote
   \<and> snd (client_executeQuote ext (originChainId operation) quote) = Some e"
  show "\<exists>msg. fst (executeQuote cfg ext quote operation w')
                 = Inr \<lparr>success = False, depositId = None, originTxHash = None,
                        destinationTxHash = None, error = Some msg\<rparr>"
    using executeQuote_raises_result [of ext operation quote e cfg w'] h by auto
  show "status_requests (snd (executeBridgeOperation cfg ext operation w)) = status_requests w"
  proof (rule executeBridgeOperation_frame [OF status_requests_closed], goal_cases)
    case (3 q result i w1 w2 w3 w4)
    have "fst (getQuote cfg ext operation w1) = Inr quote"
      using h getQuote_value [of cfg ext operation w1 w] by simp
    then have "q = quote" using 3(1) by simp
    then have "depositId result = None"
      using executeQuote_raises_result [of ext operation quote e cfg w3] h 3(2) by auto
    then show ?case using 3(3) by simp
  qed (simp_all add: saveTransactionToHistory_status_requests)
qed


lemma route_eth_optimism_arbitrum:
  "createRouteObject TOKENS_config ''ETH'' 10 42161 True
     = Inr \<lparr>routeOriginChainId = 10, routeDestinationChainId = 42161,
            inputToken = ''0x4200000000000000000000000000000000000006'',
            outputToken = ''0x82aF49447D8a07e3bd95BD0d56f35241523fBab1'',
            isNative = True\<rparr>"
  by (simp add: createRouteObject_def getTokenAddress_def token_entry_def TOKENS_config_def)

lemma decimalsFor_eth_optimism_arbitrum:
  "decimalsFor shipped_config eth_optimism_arbitrum = 18"
  by (simp add: decimalsFor_def eth_optimism_arbitrum_def)

lemma getQuote_execution_fails:
  "fst (getQuote shipped_config execution_fails eth_optimism_arbitrum w) = Inr quote_995"
  by (simp add: getQuote_def getQuote_try_def andThen_def try_catch_def Let_def
        logQuoteDetails_def quote_995_def decimalsFor_def
        execution_fails_def pending_pending_filled_def shipped_config_def
        eth_optimism_arbitrum_def route_eth_optimism_arbitrum [simplified])

text \<open>
  The SDK raises after the deposit with id 7 was notified: no request to the status
  endpoint.
\<close>

theorem execution_error_no_polling_witness:
  "status_requests (snd (executeBridgeOperation shipped_config execution_fails eth_optimism_arbitrum fresh_world)) = 0"
proof -
  have raises: "snd (client_executeQuote execution_fails (originChainId eth_optimism_arbitrum) quote_995)
                  = Some (Error ''execution reverted'')"
    by (simp add: execution_fails_def)
  have start: "status_requests fresh_world = 0"
    by (simp add: status_requests_def fresh_world_def)
  show ?thesis
    using execution_error_no_polling [of shipped_config execution_fails eth_optimism_arbitrum
            fresh_world quote_995 "Error ''execution reverted''"]
      getQuote_execution_fails raises start
    by simp
qed


section \<open>History recorder: reading and writing\<close>

lemma new_lines_append [simp]: "console w' = console w @ ls \<Longrightarrow> new_lines w w' = ls"
  by (simp add: new_lines_def)

lemma addOutputAmount_effect:
  "history_file (snd (addOutputAmount cfg ext operation quote sr w)) = history_file w
   \<and> write_failure (snd (addOutputAmount cfg ext operation quote sr w)) = write_failure w
   \<and> trace (snd (addOutputAmount cfg ext operation quote sr w)) = trace w
   \<and> (\<exists>ls. console (snd (addOutputAmount cfg ext operation quote sr w)) = console w @ ls
          \<and> (\<forall>m. Line (''Warning: Could not read history file: '' @ m) \<notin> set ls))
   \<and> saved_success (fst (addOutputAmount cfg ext operation quote sr w)) = saved_success sr
   \<and> saved_error (fst (addOutputAmount cfg ext operation quote sr w)) = saved_error sr"
  by (auto simp add: addOutputAmount_def Let_def logWithTime_def
        split: option.splits sum.splits)


lemma saveTransactionToHistory_written:
  assumes "saveHistory (OPTIONS cfg)" and "write_failure w = None"
    and "readHistory w = (Json_array records, w1)"
    and "console w1 = console w @ warned"
    and "history_file w1 = history_file w" and "write_failure w1 = write_failure w"
  shows "\<exists>entry ls. fst (saveTransactionToHistory cfg ext operation result quote w) = Inr ()
           \<and> history_file (snd (saveTransactionToHistory cfg ext operation result quote w))
               = Parsed (Json_array (records @ [entry]))
           \<and> saved_operation entry = safeOperation operation
           \<and> saved_success (saved_result entry) = success result
           \<and> saved_error (saved_result entry) = or_null (error result)
           \<and> new_lines w (snd (saveTransactionToHistory cfg ext operation result quote w)) = warned @ ls
           \<and> (\<forall>m. Line (''Warning: Could not read history file: '' @ m) \<notin> set ls)"
proof -
  obtain sr w2 where out: "addOutputAmount cfg ext operation quote (safeResult result) w1 = (sr, w2)"
    by (cases "addOutputAmount cfg ext operation quote (safeResult result) w1")
  from addOutputAmount_effect [of cfg ext operation quote "safeResult result" w1] out
  obtain ls where w2: "history_file w2 = history_file w1" "write_failure w2 = write_failure w1"
    "console w2 = console w1 @ ls"
    "\<forall>m. Line (''Warning: Could not read history file: '' @ m) \<notin> set ls"
    "saved_success sr = success result" "saved_error sr = or_null (error result)"
    by (auto simp add: safeResult_def)
  show ?thesis
    using assms out w2
    by (auto simp add: saveTransactionToHistory_def Let_def call_def logWithTime_def new_lines_def)
qed

lemma saveTransactionToHistory_write_fails:
  assumes "saveHistory (OPTIONS cfg)" and "write_failure w = Some e"
    and "\<forall>e'. history_file w \<noteq> Parsed (Json_other e')"
  shows "fst (saveTransactionToHistory cfg ext operation result quote w) = Inr ()
         \<and> Line (''Error: Could not save to history file: '' @ message e)
             \<in> set (new_lines w (snd (saveTransactionToHistory cfg ext operation result quote w)))"
proof -
  obtain history w1 where read: "readHistory w = (history, w1)"
    by (cases "readHistory w")
  have "\<exists>records. history = Json_array records"
    using read assms(3)
    by (cases "history_file w"; cases history) (auto simp add: readHistory_def Let_def)
  then obtain records where history: "history = Json_array records"
    by blast
  obtain warned where w1: "console w1 = console w @ warned" "history_file w1 = history_file w"
    "write_failure w1 = write_failure w"
    using read
    by (cases "history_file w") (auto simp add: readHistory_def Let_def call_def logWithTime_def)
  obtain sr w2 where out: "addOutputAmount cfg ext operation quote (safeResult result) w1 = (sr, w2)"
    by (cases "addOutputAmount cfg ext operation quote (safeResult result) w1")
  from addOutputAmount_effect [of cfg ext operation quote "safeResult result" w1] out
  obtain ls where w2: "history_file w2 = history_file w1" "write_failure w2 = write_failure w1"
    "console w2 = console w1 @ ls"
    by auto
  show ?thesis
    using assms(1,2) read history w1 out w2
    by (auto simp add: saveTransactionToHistory_def Let_def call_def logWithTime_def new_lines_def)
qed


text \<open>
  C6, as the code has it. With the history enabled: a missing history file is taken as an
  empty list without any warning (the read is guarded by \<^verbatim>\<open>existsSync\<close>); a file that
  cannot be read or does not parse is taken as an empty list and a warning is logged; in
  these three cases the file afterwards holds an array of one record, the one of this
  call; a file that holds an array of records holds the same array with this record
  appended (one record becomes two); and when writing fails, the error is logged and the
  recorder returns normally.
\<close>

theorem saveTransactionToHistory_best_effort:
  fixes cfg ext operation result quote w
  defines "out \<equiv> saveTransactionToHistory cfg ext operation result quote w"
  shows
  "saveHistory (OPTIONS cfg) \<longrightarrow>
     (history_file w = Missing \<and> write_failure w = None
        \<longrightarrow> fst out = Inr ()
            \<and> (\<exists>entry. history_file (snd out) = Parsed (Json_array [entry])
                  \<and> saved_operation entry = safeOperation operation
                  \<and> saved_success (saved_result entry) = success result
                  \<and> saved_error (saved_result entry) = or_null (error result))
            \<and> (\<forall>m. Line (''Warning: Could not read history file: '' @ m)
                      \<notin> set (new_lines w (snd out))))
     \<and> ((history_file w = Unreadable e \<or> history_file w = Unparsable e) \<and> write_failure w = None
        \<longrightarrow> fst out = Inr ()
            \<and> (\<exists>entry. history_file (snd out) = Parsed (Json_array [entry])
                  \<and> saved_operation entry = safeOperation operation
                  \<and> saved_success (saved_result entry) = success result
                  \<and> saved_error (saved_result entry) = or_null (error result))
            \<and> Line (''Warning: Could not read history file: '' @ message e)
                  \<in> set (new_lines w (snd out)))
     \<and> (history_file w = Parsed (Json_array records) \<and> write_failure w = None
        \<longrightarrow> fst out = Inr ()
            \<and> (\<exists>entry. history_file (snd out) = Parsed (Json_array (records @ [entry]))
                  \<and> saved_operation entry = safeOperation operation
                  \<and> saved_success (saved_result entry) = success result
                  \<and> saved_error (saved_result entry) = or_null (error result)))
     \<and> ((\<forall>e'. history_file w \<noteq> Parsed (Json_other e')) \<and> write_failure w = Some e
        \<longrightarrow> fst out = Inr ()
            \<and> Line (''Error: Could not save to history file: '' @ message e)
                  \<in> set (new_lines w (snd out)))"
proof (intro impI conjI)
  assume on: "saveHistory (OPTIONS cfg)"
  {
    assume h: "history_file w = Missing \<and> write_failure w = None"
    have read: "readHistory w = (Json_array [], call Fs_existsSync w)"
      using h by (simp add: readHistory_def)
    from saveTransactionToHistory_written [OF on _ read, of "[]" ext operation result quote] h
    obtain entry ls where
      "fst out = Inr ()" "history_file (snd out) = Parsed (Json_array [entry])"
      "saved_operation entry = safeOperation operation"
      "saved_success (saved_result entry) = success result"
      "saved_error (saved_result entry) = or_null (error result)"
      "new_lines w (snd out) = ls"
      "\<forall>m. Line (''Warning: Could not read history file: '' @ m) \<notin> set ls"
      unfolding out_def by (auto simp add: call_def)
    then show "fst out = Inr ()"
      and "\<exists>entry. history_file (snd out) = Parsed (Json_array [entry])
                  \<and> saved_operation entry = safeOperation operation
                  \<and> saved_success (saved_result entry) = success result
                  \<and> saved_error (saved_result entry) = or_null (error result)"
      and "\<forall>m. Line (''Warning: Could not read history file: '' @ m) \<notin> set (new_lines w (snd out))"
      by auto
  }
  {
    assume h: "(history_file w = Unreadable e \<or> history_file w = Unparsable e) \<and> write_failure w = None"
    let ?w1 = "logWithTime (Line (''Warning: Could not read history file: '' @ message e))
                 (call Fs_readFileSync (call Fs_existsSync w))"
    have read: "readHistory w = (Json_array [], ?w1)"
      using h by (auto simp add: readHistory_def)
    from saveTransactionToHistory_written [OF on _ read,
            of "[Line (''Warning: Could not read history file: '' @ message e)]"
               ext operation result quote] h
    obtain entry ls where
      "fst out = Inr ()" "history_file (snd out) = Parsed (Json_array [entry])"
      "saved_operation entry = safeOperation operation"
      "saved_success (saved_result entry) = success result"
      "saved_error (saved_result entry) = or_null (error result)"
      "new_lines w (snd out) = [Line (''Warning: Could not read history file: '' @ message e)] @ ls"
      unfolding out_def by (auto simp add: call_def logWithTime_def)
    then show "fst out = Inr ()"
      and "\<exists>entry. history_file (snd out) = Parsed (Json_array [entry])
                  \<and> saved_operation entry = safeOperation operation
                  \<and> saved_success (saved_result entry) = success result
                  \<and> saved_error (saved_result entry) = or_null (error result)"
      and "Line (''Warning: Could not read history file: '' @ message e) \<in> set (new_lines w (snd out))"
      by auto
  }
  {
    assume h: "history_file w = Parsed (Json_array records) \<and> write_failure w = None"
    have read: "readHistory w = (Json_array records, call Fs_readFileSync (call Fs_existsSync w))"
      using h by (simp add: readHistory_def)
    from saveTransactionToHistory_written [OF on _ read, of "[]" ext operation result quote] h
    show "fst out = Inr ()"
      and "\<exists>entry. history_file (snd out) = Parsed (Json_array (records @ [entry]))
                  \<and> saved_operation entry = safeOperation operation
                  \<and> saved_success (saved_result entry) = success result
                  \<and> saved_error (saved_result entry) = or_null (error result)"
      unfolding out_def by (auto simp add: call_def)
  }
  {
    assume h: "(\<forall>e'. history_file w \<noteq> Parsed (Json_other e')) \<and> write_failure w = Some e"
    from saveTransactionToHistory_write_fails [OF on, of w e ext operation result quote] h
    show "fst out = Inr ()"
      and "Line (''Error: Could not save to history file: '' @ message e) \<in> set (new_lines w (snd out))"
      unfolding out_def by auto
  }
qed

text \<open>
  Appending with no history file gives an array of one record; appending to a file that
  holds one record gives an array of two.
\<close>

theorem saveTransactionToHistory_best_effort_witness:
  "(\<exists>entry. history_file (snd (saveTransactionToHistory shipped_config pending_pending_filled
                 eth_optimism_arbitrum (failure ''Quote did not meet thresholds'') None fresh_world))
              = Parsed (Json_array [entry]))
   \<and> (\<exists>entry. history_file (snd (saveTransactionToHistory shipped_config pending_pending_filled
                 eth_optimism_arbitrum (failure ''Quote did not meet thresholds'') None one_record_world))
              = Parsed (Json_array [earlier_record, entry]))"
proof -
  have on: "saveHistory (OPTIONS shipped_config)"
    by (simp add: shipped_config_def)
  have missing: "history_file fresh_world = Missing \<and> write_failure fresh_world = None"
    by (simp add: fresh_world_def)
  have one: "history_file one_record_world = Parsed (Json_array [earlier_record])
             \<and> write_failure one_record_world = None"
    by (simp add: one_record_world_def fresh_world_def)
  show ?thesis
    using saveTransactionToHistory_best_effort [of shipped_config fresh_world
            pending_pending_filled eth_optimism_arbitrum "failure ''Quote did not meet thresholds''" None]
      saveTransactionToHistory_best_effort [of shipped_config one_record_world
            pending_pending_filled eth_optimism_arbitrum "failure ''Quote did not meet thresholds''" None
            _ "[earlier_record]"]
      on missing one
    by auto
qed

text \<open>
  C6 as stated fails where the history file is missing: the recorder logs no warning. On
  a fresh world its only line is the confirmation that the record was saved.
\<close>

theorem saveTransactionToHistory_missing_counterexample:
  "history_file fresh_world = Missing
   \<and> console (snd (saveTransactionToHistory shipped_config pending_pending_filled
                 eth_optimism_arbitrum (failure ''Quote did not meet thresholds'') None fresh_world))
     = [Line ''Transaction saved to history file'']"
  by (simp add: saveTransactionToHistory_def readHistory_def addOutputAmount_def Let_def
        call_def logWithTime_def fresh_world_def shipped_config_def)


section \<open>Runs on concrete inputs\<close>

lemma Number_995e12: "Number 995000000000000 = Finite 995000000000000"
proof -
  have "binade 995000000000000 = 49"
    by (simp add: binade_def compute_bitlen)
  then show ?thesis
    by (simp add: Number_def to_double_def round_half_even_def Let_def)
qed

lemma Number_1e15: "Number 1000000000000000 = Finite 1000000000000000"
proof -
  have "binade 1000000000000000 = 49"
    by (simp add: binade_def compute_bitlen)
  then show ?thesis
    by (simp add: Number_def to_double_def round_half_even_def Let_def)
qed

lemma accepted_995:
  "js_ge (js_divide (Number 995000000000000) (Number 1000000000000000)) (to_double (199 / 200))"
  by (simp add: Number_995e12 Number_1e15 js_ge_def js_le_refl)

lemmas run_defs =
  executeBridgeOperation_def executeBridgeOperation_try_def executeBridgeOperation_catch_def
  getQuote_def getQuote_try_def logQuoteDetails_def quoteExceedsThresholds_def
  executeQuote_def executeQuote_try_def pollDepositStatus_def pollOnce_def pollOnce_try_def
  saveTransactionToHistory_def readHistory_def addOutputAmount_def feeText_def
  safeResult_def safeOperation_def failure_def or_null_def
  andThen_def try_catch_def Let_def decimalsFor_def createRouteObject_def getTokenAddress_def
  token_entry_def getChainName_def


lemmas example_defs =
  shipped_config_def pending_pending_filled_def eth_optimism_arbitrum_def eth_base_ethereum_def
  quote_995_def TOKENS_config_def CHAINS_config_def fresh_world_def call_def logWithTime_def

section \<open>Paths through an operation\<close>

lemma andThen_Inl: "andThen (Inl e, w) f = (Inl e, w)"
  by (simp add: andThen_def)

lemma andThen_Inr: "andThen (Inr x, w) f = f x w"
  by (simp add: andThen_def)

text \<open>
  An operation whose quote was accepted, with automatic execution on: what is left of the
  \<^verbatim>\<open>try\<close> block once \<^verbatim>\<open>executeQuote\<close> has returned.
\<close>

lemma executeBridgeOperation_try_executed:
  assumes "getQuote cfg ext operation
             (logWithTime (Line ''----------------------------------------------------'')
                (logWithTime (Described [] operation)
                   (logWithTime (Starting_operation (name operation))
                      (logWithTime (Line ''\<newline>----------------------------------------------------'') w))))
           = (Inr quote, w1)"
    and "quoteExceedsThresholds cfg ext quote operation w1 = (Inr True, w2)"
    and "autoExecute (OPTIONS cfg)"
    and "executeQuote cfg ext quote operation
           (if onExecutionStart (notifications (MONITORING cfg))
            then logWithTime
                   (Line (''Notification: Starting execution of operation '' @ name operation)) w2
            else w2)
         = (r, w3)"
  shows "executeBridgeOperation_try cfg ext operation w
         = andThen (r, w3)
             (\<lambda>result w.
                andThen (case depositId result of
                           None \<Rightarrow> (Inr result, w)
                         | Some i \<Rightarrow>
                             if i \<noteq> 0 \<and> \<not> success result
                             then andThen (pollDepositStatus cfg ext (originChainId operation) i w)
                                    (\<lambda>statusResult w.
                                       (Inr (if statusResult then result\<lparr>success := True\<rparr>
                                             else result), w))
                             else (Inr result, w))
                  (\<lambda>result w.
                     andThen (saveTransactionToHistory cfg ext operation result (Some quote) w)
                       (\<lambda>_ w.
                          (Inr (success result),
                           if onExecutionComplete (notifications (MONITORING cfg))
                           then logWithTime
                                  (Line (''Notification: Operation '' @ name operation
                                         @ '' completed with status: ''
                                         @ (if success result then ''Success'' else ''Failed''))) w
                           else w))))"
  using assms
  by (simp only: executeBridgeOperation_try_def andThen_Inl andThen_Inr Let_def
        simp_thms if_True if_False)

text \<open>
  The guard \<^verbatim>\<open>result.depositId && !result.success\<close>: without a deposit id, with the
  deposit id 0, or with a result already successful, the result is recorded as it is, in
  the world \<^verbatim>\<open>executeQuote\<close> left.
\<close>

lemma executeBridgeOperation_try_skips_polling:
  assumes "getQuote cfg ext operation
             (logWithTime (Line ''----------------------------------------------------'')
                (logWithTime (Described [] operation)
                   (logWithTime (Starting_operation (name operation))
                      (logWithTime (Line ''\<newline>----------------------------------------------------'') w))))
           = (Inr quote, w1)"
    and "quoteExceedsThresholds cfg ext quote operation w1 = (Inr True, w2)"
    and "autoExecute (OPTIONS cfg)"
    and "executeQuote cfg ext quote operation
           (if onExecutionStart (notifications (MONITORING cfg))
            then logWithTime
                   (Line (''Notification: Starting execution of operation '' @ name operation)) w2
            else w2)
         = (Inr result, w3)"
    and "depositId result = None \<or> depositId result = Some 0 \<or> success result"
  shows "executeBridgeOperation_try cfg ext operation w
         = andThen (saveTransactionToHistory cfg ext operation result (Some quote) w3)
             (\<lambda>_ w.
                (Inr (success result),
                 if onExecutionComplete (notifications (MONITORING cfg))
                 then logWithTime
                        (Line (''Notification: Operation '' @ name operation
                               @ '' completed with status: ''
                               @ (if success result then ''Success'' else ''Failed''))) w
                 else w))"
proof -
  have "(case depositId result of
           None \<Rightarrow> (Inr result, w3)
         | Some i \<Rightarrow>
             if i \<noteq> 0 \<and> \<not> success result
             then andThen (pollDepositStatus cfg ext (originChainId operation) i w3)
                    (\<lambda>statusResult w.
                       (Inr (if statusResult then result\<lparr>success := True\<rparr> else result), w))
             else (Inr result, w3)) = (Inr result, w3)"
    using assms(5) by (auto split: option.splits)
  then show ?thesis
    using executeBridgeOperation_try_executed [OF assms(1-4)]
    by (simp only: andThen_Inr)
qed

text \<open>
  With a deposit id other than 0 and a result not yet successful the poller runs, and
  what is recorded and returned is the result with the flag the poller confirmed.
\<close>

lemma executeBridgeOperation_try_polls:
  assumes "getQuote cfg ext operation
             (logWithTime (Line ''----------------------------------------------------'')
                (logWithTime (Described [] operation)
                   (logWithTime (Starting_operation (name operation))
                      (logWithTime (Line ''\<newline>----------------------------------------------------'') w))))
           = (Inr quote, w1)"
    and "quoteExceedsThresholds cfg ext quote operation w1 = (Inr True, w2)"
    and "autoExecute (OPTIONS cfg)"
    and "executeQuote cfg ext quote operation
           (if onExecutionStart (notifications (MONITORING cfg))
            then logWithTime
                   (Line (''Notification: Starting execution of operation '' @ name operation)) w2
            else w2)
         = (Inr result, w3)"
    and "depositId result = Some i" and "i \<noteq> 0" and "\<not> success result"
    and "pollDepositStatus cfg ext (originChainId operation) i w3 = (Inr statusResult, w4)"
  shows "executeBridgeOperation_try cfg ext operation w
         = andThen (saveTransactionToHistory cfg ext operation
                      (if statusResult then result\<lparr>success := True\<rparr> else result) (Some quote) w4)
             (\<lambda>_ w.
                (Inr statusResult,
                 if onExecutionComplete (notifications (MONITORING cfg))
                 then logWithTime
                        (Line (''Notification: Operation '' @ name operation
                               @ '' completed with status: ''
                               @ (if statusResult then ''Success'' else ''Failed''))) w
                 else w))"
proof -
  have flag: "success (if statusResult then result\<lparr>success := True\<rparr> else result) = statusResult"
    using assms(7) by simp
  show ?thesis
    using executeBridgeOperation_try_executed [OF assms(1-4)] assms(5-8)
    by (simp only: andThen_Inr option.case simp_thms if_True flag)
qed

text \<open>
  Every path through the \<^verbatim>\<open>try\<close> block of an operation either raises before the
  recorder is reached, or ends with one call of the recorder, after which the block
  returns the success flag of the recorded result and only logs. Here \<open>R\<close> is any relation
  that the steps other than the recorder maintain.
\<close>

lemma executeBridgeOperation_try_outcome:
  assumes "log_closed R" and "\<And>ev w. \<not> is_file_access ev \<Longrightarrow> R w (call ev w)"
  shows "\<exists>w1. R w w1 \<and>
           ((\<exists>e. executeBridgeOperation_try cfg ext operation w = (Inl e, w1))
            \<or> (\<exists>result quote g. (\<forall>w. R w (g w))
                  \<and> executeBridgeOperation_try cfg ext operation w
                      = andThen (saveTransactionToHistory cfg ext operation result quote w1)
                          (\<lambda>_ w. (Inr (success result), g w))))"
proof -
  note step = log_closed_log [OF assms(1)] log_closed_refl [OF assms(1)]
  note trans = log_closed_trans [OF assms(1)]
  have raised: ?thesis
    if "R w w1" and "executeBridgeOperation_try cfg ext operation w = (Inl e, w1)" for e w1
    using that by blast
  have recorded: ?thesis
    if "R w w1" and "\<forall>w. R w (g w)" and "b = success result"
      and "executeBridgeOperation_try cfg ext operation w
             = andThen (saveTransactionToHistory cfg ext operation result quote w1)
                 (\<lambda>_ w. (Inr b, g w))" for result quote b g w1
    using that by blast
  have flag: "success (failure msg) = False" for msg
    by (simp add: failure_def)
  let ?w0 = "logWithTime (Line ''----------------------------------------------------'')
               (logWithTime (Described [] operation)
                  (logWithTime (Starting_operation (name operation))
                     (logWithTime (Line ''\<newline>----------------------------------------------------'') w)))"
  obtain r1 w1 where quoted: "getQuote cfg ext operation ?w0 = (r1, w1)"
    by (cases "getQuote cfg ext operation ?w0")
  have "R ?w0 w1"
    using getQuote_frame [OF assms(1), of ?w0 cfg ext operation] assms(2) quoted by simp
  moreover have "R w ?w0" by (intro step)
  ultimately have w1: "R w w1" using trans by blast
  show ?thesis
  proof (cases r1)
    case (Inl e)
    then have "executeBridgeOperation_try cfg ext operation w = (Inl e, w1)"
      using quoted by (simp only: executeBridgeOperation_try_def andThen_Inl)
    then show ?thesis
      using w1 by (intro raised)
  next
    case (Inr quote)
    obtain r2 w2 where checked: "quoteExceedsThresholds cfg ext quote operation w1 = (r2, w2)"
      by (cases "quoteExceedsThresholds cfg ext quote operation w1")
    have "R w1 w2"
      using quoteExceedsThresholds_frame [OF assms(1), of w1 cfg ext quote operation] checked by simp
    with w1 have w2: "R w w2" using trans by blast
    show ?thesis
    proof (cases r2)
      case (Inl e)
      then have "executeBridgeOperation_try cfg ext operation w = (Inl e, w2)"
        using quoted Inr checked
        by (simp only: executeBridgeOperation_try_def andThen_Inl andThen_Inr)
      then show ?thesis
        using w2 by (intro raised)
    next
      case accepted: (Inr accepted)
      show ?thesis
      proof (cases "accepted")
        case False
        let ?w2 = "if onThresholdFailure (notifications (MONITORING cfg))
                   then logWithTime
                          (Line (''Notification: Thresholds not met for operation '' @ name operation))
                          (logWithTime (Line ''Quote does not meet thresholds. Operation cancelled.'') w2)
                   else logWithTime (Line ''Quote does not meet thresholds. Operation cancelled.'') w2"
        have cancelled: "executeBridgeOperation_try cfg ext operation w
                = andThen (saveTransactionToHistory cfg ext operation
                             (failure ''Quote did not meet thresholds'') (Some quote) ?w2)
                    (\<lambda>_ w. (Inr False, w))"
          using False quoted Inr checked accepted
          by (simp only: executeBridgeOperation_try_def andThen_Inl andThen_Inr Let_def
                simp_thms if_True if_False)
        have "R w2 ?w2" by (simp add: step)
        then have "R w ?w2" using w2 trans by blast
        then show ?thesis
          by (rule recorded [where g = "\<lambda>w. w", OF _ _ _ cancelled]) (simp_all add: step flag)
      next
        case True
        show ?thesis
        proof (cases "autoExecute (OPTIONS cfg)")
          case False
          let ?w2 = "logWithTime
                       (Line ''Set OPTIONS.autoExecute = true to automatically execute transactions.'')
                       (logWithTime
                          (Line ''Since auto-execute is disabled, please modify the config.js file to enable it.'')
                          (logWithTime (Line ''\<newline>Quote meets thresholds and is ready to execute.'') w2))"
          have ready: "executeBridgeOperation_try cfg ext operation w
                  = andThen (saveTransactionToHistory cfg ext operation
                               (failure ''Auto-execute disabled'') (Some quote) ?w2)
                      (\<lambda>_ w. (Inr False, w))"
            using False True quoted Inr checked accepted
            by (simp only: executeBridgeOperation_try_def andThen_Inl andThen_Inr Let_def
                  simp_thms if_True if_False)
          have "R w2 ?w2" by (intro step)
          then have "R w ?w2" using w2 trans by blast
          then show ?thesis
            by (rule recorded [where g = "\<lambda>w. w", OF _ _ _ ready]) (simp_all add: step flag)
        next
          case auto: True
          let ?w2 = "if onExecutionStart (notifications (MONITORING cfg))
                     then logWithTime
                            (Line (''Notification: Starting execution of operation '' @ name operation)) w2
                     else w2"
          obtain r3 w3 where executed: "executeQuote cfg ext quote operation ?w2 = (r3, w3)"
            by (cases "executeQuote cfg ext quote operation ?w2")
          have "R w2 ?w2" by (simp add: step)
          then have "R w ?w2" using w2 trans by blast
          moreover have "R ?w2 w3"
            using executeQuote_frame [OF assms(1), of ?w2 cfg ext quote operation] assms(2) executed
            by simp
          ultimately have w3: "R w w3" using trans by blast
          have quoted': "getQuote cfg ext operation ?w0 = (Inr quote, w1)"
            and checked': "quoteExceedsThresholds cfg ext quote operation w1 = (Inr True, w2)"
            using quoted Inr checked accepted True by simp_all
          note body = executeBridgeOperation_try_executed [OF quoted' checked' auto executed]
          show ?thesis
          proof (cases r3)
            case (Inl e)
            then have "executeBridgeOperation_try cfg ext operation w = (Inl e, w3)"
              using body by (simp only: andThen_Inl)
            then show ?thesis
              using w3 by (intro raised)
          next
            case (Inr result)
            show ?thesis
            proof (cases "depositId result = None \<or> depositId result = Some 0 \<or> success result")
              case True
              show ?thesis
                by (rule recorded [OF w3 _ _
                      executeBridgeOperation_try_skips_polling
                        [OF quoted' checked' auto executed [unfolded Inr] True]])
                   (simp_all add: step)
            next
              case False
              then obtain i where i: "depositId result = Some i" "i \<noteq> 0" "\<not> success result"
                by auto
              obtain r4 w4 where polled:
                "pollDepositStatus cfg ext (originChainId operation) i w3 = (r4, w4)"
                by (cases "pollDepositStatus cfg ext (originChainId operation) i w3")
              have "R w3 w4"
                using pollDepositStatus_frame [OF assms(1), of w3 cfg ext "originChainId operation" i]
                  assms(2) polled by simp
              with w3 have w4: "R w w4" using trans by blast
              show ?thesis
              proof (cases r4)
                case (Inl e)
                then have "executeBridgeOperation_try cfg ext operation w = (Inl e, w4)"
                  using body Inr i polled
                  by (simp only: andThen_Inr andThen_Inl option.case simp_thms if_True)
                then show ?thesis
                  using w4 by (intro raised)
              next
                case statusResult: (Inr statusResult)
                show ?thesis
                  using i(3)
                  by (intro recorded [OF w4 _ _
                        executeBridgeOperation_try_polls
                          [OF quoted' checked' auto executed [unfolded Inr] i
                              polled [unfolded statusResult]]])
                     (simp_all add: step)
              qed
            qed
          qed
        qed
      qed
    qed
  qed
qed

lemma saveTransactionToHistory_appends:
  assumes "saveHistory (OPTIONS cfg)" and "history_file w = Parsed (Json_array records)"
    and "write_failure w = None"
  shows "\<exists>entry w'. saveTransactionToHistory cfg ext operation result quote w = (Inr (), w')
           \<and> history_file w' = Parsed (Json_array (records @ [entry]))
           \<and> write_failure w' = None
           \<and> saved_operation entry = safeOperation operation
           \<and> saved_success (saved_result entry) = success result
           \<and> saved_error (saved_result entry) = or_null (error result)"
proof -
  let ?w1 = "call Fs_readFileSync (call Fs_existsSync w)"
  have read: "readHistory w = (Json_array records, ?w1)"
    using assms(2) by (simp add: readHistory_def)
  obtain sr w2 where out: "addOutputAmount cfg ext operation quote (safeResult result) ?w1 = (sr, w2)"
    by (cases "addOutputAmount cfg ext operation quote (safeResult result) ?w1")
  from addOutputAmount_effect [of cfg ext operation quote "safeResult result" ?w1] out
  have w2: "history_file w2 = history_file ?w1" "write_failure w2 = write_failure ?w1"
    "saved_success sr = success result" "saved_error sr = or_null (error result)"
    by (auto simp add: safeResult_def)
  show ?thesis
    using assms read out w2
    by (auto simp add: saveTransactionToHistory_def Let_def call_def logWithTime_def)
qed

text \<open>
  With the history enabled, a history file that holds an array and can be written, an
  operation appends exactly one record, on every path: the record of this operation, with
  the success flag the operation returns.
\<close>

lemma executeBridgeOperation_records_once:
  assumes "saveHistory (OPTIONS cfg)" and "history_file w = Parsed (Json_array records)"
    and "write_failure w = None"
  shows "\<exists>b entry w'. executeBridgeOperation cfg ext operation w = (Inr b, w')
           \<and> history_file w' = Parsed (Json_array (records @ [entry]))
           \<and> write_failure w' = None
           \<and> saved_operation entry = safeOperation operation
           \<and> saved_success (saved_result entry) = b"
proof -
  let ?R = "\<lambda>w w'. history_file w' = history_file w \<and> write_failure w' = write_failure w
                       \<and> file_accesses w' = file_accesses w"
  from executeBridgeOperation_try_outcome [of ?R w cfg ext operation, OF keeps_file_closed]
  obtain w1 where w1: "?R w w1"
    and outcome: "(\<exists>e. executeBridgeOperation_try cfg ext operation w = (Inl e, w1))
            \<or> (\<exists>result quote g. (\<forall>w. ?R w (g w))
                  \<and> executeBridgeOperation_try cfg ext operation w
                      = andThen (saveTransactionToHistory cfg ext operation result quote w1)
                          (\<lambda>_ w. (Inr (success result), g w)))"
    using keeps_file_call by blast
  from outcome show ?thesis
  proof
    assume "\<exists>e. executeBridgeOperation_try cfg ext operation w = (Inl e, w1)"
    then obtain e where raised: "executeBridgeOperation_try cfg ext operation w = (Inl e, w1)"
      by blast
    define w2 where
      "w2 = (if onError (notifications (MONITORING cfg))
             then logWithTime
                    (Line (''Notification: Error in operation '' @ name operation @ '': '' @ message e))
                    (logWithTime (Line (''Error executing bridge operation: '' @ message e)) w1)
             else logWithTime (Line (''Error executing bridge operation: '' @ message e)) w1)"
    have w2: "history_file w2 = Parsed (Json_array records)" "write_failure w2 = None"
      using w1 assms(2,3) by (simp_all add: w2_def logWithTime_def)
    from saveTransactionToHistory_appends [OF assms(1) w2, of ext operation "failure (message e)" None]
    obtain entry w' where
      "saveTransactionToHistory cfg ext operation (failure (message e)) None w2 = (Inr (), w')"
      "history_file w' = Parsed (Json_array (records @ [entry]))" "write_failure w' = None"
      "saved_operation entry = safeOperation operation"
      "saved_success (saved_result entry) = False"
      by (auto simp add: failure_def)
    moreover have "executeBridgeOperation_catch cfg ext operation e w1
            = andThen (saveTransactionToHistory cfg ext operation (failure (message e)) None w2)
                (\<lambda>_ w. (Inr False, w))"
      by (simp add: executeBridgeOperation_catch_def Let_def w2_def)
    ultimately show ?thesis
      using raised
      by (simp only: executeBridgeOperation_def try_catch_def andThen_Inr sum.case prod.case)
         auto
  next
    assume "\<exists>result quote g. (\<forall>w. ?R w (g w))
                  \<and> executeBridgeOperation_try cfg ext operation w
                      = andThen (saveTransactionToHistory cfg ext operation result quote w1)
                          (\<lambda>_ w. (Inr (success result), g w))"
    then obtain result quote g where g: "\<forall>w. ?R w (g w)"
      and body: "executeBridgeOperation_try cfg ext operation w
                      = andThen (saveTransactionToHistory cfg ext operation result quote w1)
                          (\<lambda>_ w. (Inr (success result), g w))"
      by blast
    from saveTransactionToHistory_appends [OF assms(1), of w1 records ext operation result quote]
    obtain entry w' where
      "saveTransactionToHistory cfg ext operation result quote w1 = (Inr (), w')"
      "history_file w' = Parsed (Json_array (records @ [entry]))" "write_failure w' = None"
      "saved_operation entry = safeOperation operation"
      "saved_success (saved_result entry) = success result"
      using w1 assms(2,3) by auto
    then show ?thesis
      using body g
      by (simp only: executeBridgeOperation_def try_catch_def andThen_Inr sum.case prod.case)
         auto
  qed
qed

text \<open>
  So the loop of \<^verbatim>\<open>main\<close> appends one record for each operation of its list, in order,
  and a run of \<^verbatim>\<open>main\<close> one record for each enabled operation of the configuration.
\<close>

lemma forEachOperation_records_each:
  assumes "saveHistory (OPTIONS cfg)"
  shows "history_file w = Parsed (Json_array records) \<Longrightarrow> write_failure w = None
         \<Longrightarrow> \<exists>entries w'. forEachOperation cfg ext operations w = (Inr (), w')
               \<and> history_file w' = Parsed (Json_array (records @ entries))
               \<and> write_failure w' = None
               \<and> map saved_operation entries = map safeOperation operations"
proof (induction operations arbitrary: w records)
  case Nil
  then show ?case by simp
next
  case (Cons operation rest)
  from executeBridgeOperation_records_once [OF assms Cons.prems, of ext operation]
  obtain b entry w1 where ran: "executeBridgeOperation cfg ext operation w = (Inr b, w1)"
    and w1: "history_file w1 = Parsed (Json_array (records @ [entry]))" "write_failure w1 = None"
    and entry: "saved_operation entry = safeOperation operation"
    by blast
  from Cons.IH [OF w1] obtain entries w' where
    rest: "forEachOperation cfg ext rest w1 = (Inr (), w')"
    "history_file w' = Parsed (Json_array ((records @ [entry]) @ entries))"
    "write_failure w' = None"
    "map saved_operation entries = map safeOperation rest"
    by blast
  have "forEachOperation cfg ext (operation # rest) w = (Inr (), w')"
    using ran rest(1) by (simp add: andThen_Inr)
  moreover have "history_file w' = Parsed (Json_array (records @ (entry # entries)))"
    using rest(2) by simp
  moreover have "map saved_operation (entry # entries) = map safeOperation (operation # rest)"
    using entry rest(4) by simp
  ultimately show ?case
    using rest(3) by blast
qed

lemma main_records_each:
  assumes "saveHistory (OPTIONS cfg)" and "history_file w = Parsed (Json_array records)"
    and "write_failure w = None"
  shows "\<exists>entries. fst (main cfg ext w) = Returned
           \<and> history_file (snd (main cfg ext w)) = Parsed (Json_array (records @ entries))
           \<and> map saved_operation entries = map safeOperation (filter enabled (BRIDGE_OPERATIONS cfg))"
proof (cases "filter enabled (BRIDGE_OPERATIONS cfg) = []")
  case True
  then have "fst (main cfg ext w) = Returned
           \<and> history_file (snd (main cfg ext w)) = Parsed (Json_array (records @ []))"
    using assms(2) by (simp add: main_def main_try_def Let_def logWithTime_def)
  then show ?thesis
    using True by (intro exI [of _ "[]"]) simp
next
  case False
  define w3 where
    "w3 = foldl (\<lambda>w (index, operation).
                   logWithTime
                     (Described (decimal (index + 1) @ ''. '' @ name operation @ '': '') operation) w)
            (logWithTime
               (Line (''Found '' @ decimal (length (filter enabled (BRIDGE_OPERATIONS cfg)))
                      @ '' enabled operations:''))
               (logWithTime (Line (''Using account: '' @ account_address ext))
                  (logWithTime (Line ''Starting Across Bridge Automation'') w)))
            (enumerate 0 (filter enabled (BRIDGE_OPERATIONS cfg)))"
  have "history_file w3 = history_file w \<and> write_failure w3 = write_failure w
        \<and> file_accesses w3 = file_accesses w"
    unfolding w3_def
    by (rule foldl_frame [OF keeps_file_closed])
       (auto simp add: logWithTime_def file_accesses_def)
  then have w3: "history_file w3 = Parsed (Json_array records)" "write_failure w3 = None"
    using assms(2,3) by simp_all
  from forEachOperation_records_each [OF assms(1) w3, of ext "filter enabled (BRIDGE_OPERATIONS cfg)"]
  obtain entries w' where
    ran: "forEachOperation cfg ext (filter enabled (BRIDGE_OPERATIONS cfg)) w3 = (Inr (), w')"
    and w': "history_file w' = Parsed (Json_array (records @ entries))"
    and entries: "map saved_operation entries = map safeOperation (filter enabled (BRIDGE_OPERATIONS cfg))"
    by blast
  have "main_try cfg ext w
          = andThen (forEachOperation cfg ext (filter enabled (BRIDGE_OPERATIONS cfg)) w3)
              (\<lambda>_ w4. (Inr (), logWithTime (Line ''All operations completed. Exiting.'') w4))"
    using False unfolding main_try_def Let_def w3_def
    by (simp only: length_0_conv if_False)
  then have "main_try cfg ext w
          = (Inr (), logWithTime (Line ''All operations completed. Exiting.'') w')"
    using ran by (simp only: andThen_Inr)
  then have "fst (main cfg ext w) = Returned
           \<and> history_file (snd (main cfg ext w)) = Parsed (Json_array (records @ entries))"
    using w' by (simp add: main_def logWithTime_def)
  then show ?thesis
    using entries by blast
qed


section \<open>Polling guard\<close>

lemma pollOnce_requests:
  "\<exists>s w'. pollOnce cfg ext origin dep n w = (Inr s, w')
          \<and> status_requests w' = status_requests w + 1"
proof (cases "terminal_success (axios_get ext origin dep n)")
  case True
  from pollOnce_success [OF this, of cfg w] show ?thesis by blast
next
  case False
  show ?thesis
  proof (cases "terminal_failure (axios_get ext origin dep n)")
    case True
    from pollOnce_failure [OF this, of cfg w] show ?thesis by blast
  next
    case no: False
    have "in_progress (axios_get ext origin dep n)"
      using False no by (simp add: in_progress_def)
    from pollOnce_in_progress [OF this, of cfg w] show ?thesis by blast
  qed
qed

lemma status_requests_grow:
  "log_closed (\<lambda>w w'. status_requests w \<le> status_requests w')"
  by (simp add: log_closed_def)

text \<open>With a budget of at least one attempt the poller makes at least one request.\<close>

lemma pollDepositStatus_requests:
  assumes "1 \<le> maxPollingAttempts (MONITORING cfg)"
  shows "status_requests w < status_requests (snd (pollDepositStatus cfg ext origin dep w))"
proof -
  let ?w0 = "logWithTime (Line (''Polling status for deposit ID: '' @ int_text dep)) w"
  have bound: "0 < maxPollingAttempts (MONITORING cfg)"
    using assms by simp
  obtain s w1 where once: "pollOnce cfg ext origin dep (Suc 0) ?w0 = (Inr s, w1)"
    and w1: "status_requests w1 = status_requests ?w0 + 1"
    using pollOnce_requests by blast
  have "status_requests w1 \<le> status_requests (snd (pollLoop cfg ext origin dep 0 ?w0))"
  proof (cases s)
    case (Returns b)
    then show ?thesis using pollLoop_returns [OF bound] once by simp
  next
    case Retry
    have "status_requests w1 \<le> status_requests (snd (pollLoop cfg ext origin dep (Suc 0) w1))"
      by (rule pollLoop_frame [OF status_requests_grow]) simp_all
    then show ?thesis using pollLoop_retry [OF bound] once Retry by simp
  qed
  then show ?thesis
    using w1 by (simp add: pollDepositStatus_def)
qed

lemma pollDepositStatus_never_raises:
  "\<exists>statusResult w'. pollDepositStatus cfg ext origin dep w = (Inr statusResult, w')"
  using pollLoop_never_raises [of cfg ext origin dep 0]
  by (simp add: pollDepositStatus_def) (metis prod.collapse)

text \<open>Recording, in the \<^verbatim>\<open>try\<close> block or in the \<^verbatim>\<open>catch\<close> block, makes no request.\<close>

lemma recorded_status_requests:
  assumes "\<forall>w. status_requests (g w) = status_requests w"
  shows "status_requests
           (snd (try_catch
                   (andThen (saveTransactionToHistory cfg ext operation result quote w)
                      (\<lambda>_ w. (Inr b, g w)))
                   (executeBridgeOperation_catch cfg ext operation)))
         = status_requests w"
  by (intro try_catch_frame [OF status_requests_closed] andThen_frame [OF status_requests_closed]
        executeBridgeOperation_catch_frame [OF status_requests_closed])
     (simp_all add: saveTransactionToHistory_status_requests assms)

text \<open>
  The guard as the code has it. After \<^verbatim>\<open>executeQuote\<close> has returned a result, the
  operation makes requests to the status endpoint if and only if the result holds a
  deposit id other than 0 and is not marked successful.
\<close>

lemma executeBridgeOperation_polls_iff:
  assumes "getQuote cfg ext operation
             (logWithTime (Line ''----------------------------------------------------'')
                (logWithTime (Described [] operation)
                   (logWithTime (Starting_operation (name operation))
                      (logWithTime (Line ''\<newline>----------------------------------------------------'') w))))
           = (Inr quote, w1)"
    and "quoteExceedsThresholds cfg ext quote operation w1 = (Inr True, w2)"
    and "autoExecute (OPTIONS cfg)"
    and "executeQuote cfg ext quote operation
           (if onExecutionStart (notifications (MONITORING cfg))
            then logWithTime
                   (Line (''Notification: Starting execution of operation '' @ name operation)) w2
            else w2)
         = (Inr result, w3)"
    and "1 \<le> maxPollingAttempts (MONITORING cfg)"
  shows "status_requests w3 < status_requests (snd (executeBridgeOperation cfg ext operation w))
         \<longleftrightarrow> (\<exists>i. depositId result = Some i \<and> i \<noteq> 0 \<and> \<not> success result)"
proof (cases "depositId result = None \<or> depositId result = Some 0 \<or> success result")
  case True
  have "status_requests (snd (executeBridgeOperation cfg ext operation w)) = status_requests w3"
    unfolding executeBridgeOperation_def
      executeBridgeOperation_try_skips_polling [OF assms(1-4) True]
    by (rule recorded_status_requests) simp
  then show ?thesis
    using True by auto
next
  case False
  then obtain i where i: "depositId result = Some i" "i \<noteq> 0" "\<not> success result"
    by auto
  obtain statusResult w4 where
    polled: "pollDepositStatus cfg ext (originChainId operation) i w3 = (Inr statusResult, w4)"
    using pollDepositStatus_never_raises by blast
  have "status_requests (snd (executeBridgeOperation cfg ext operation w)) = status_requests w4"
    unfolding executeBridgeOperation_def
      executeBridgeOperation_try_polls [OF assms(1-4) i polled]
    by (rule recorded_status_requests) simp
  moreover have "status_requests w3 < status_requests w4"
    using pollDepositStatus_requests [OF assms(5), of w3 ext "originChainId operation" i] polled
    by simp
  ultimately show ?thesis
    using i by simp
qed

text \<open>
  C8. The guard before polling is \<^verbatim>\<open>result.depositId && !result.success\<close>, and a deposit
  id is a number: the id 0 is captured by the deposit notification and is falsy. With the
  SDK notifying deposit 0 and returning before any fill, the operation makes no request
  to the status endpoint and returns false, although a deposit id was captured and the
  result is not marked successful; with deposit 7, everything else the same, it polls
  (pending, pending, filled) and returns true.
\<close>

theorem polling_skipped_for_deposit_id_zero:
  "fst (executeQuote shipped_config deposit_zero quote_995 eth_optimism_arbitrum fresh_world)
     = Inr \<lparr>success = False, depositId = Some 0, originTxHash = Some ''0x5e1f'',
            destinationTxHash = None, error = None\<rparr>
   \<and> fst (executeBridgeOperation shipped_config deposit_zero eth_optimism_arbitrum fresh_world) = Inr False
   \<and> status_requests (snd (executeBridgeOperation shipped_config deposit_zero eth_optimism_arbitrum fresh_world)) = 0
   \<and> fst (executeBridgeOperation shipped_config deposit_seven eth_optimism_arbitrum fresh_world) = Inr True
   \<and> status_requests (snd (executeBridgeOperation shipped_config deposit_seven eth_optimism_arbitrum fresh_world)) = 3"
proof (intro conjI)
  show "fst (executeQuote shipped_config deposit_zero quote_995 eth_optimism_arbitrum fresh_world)
     = Inr \<lparr>success = False, depositId = Some 0, originTxHash = Some ''0x5e1f'',
            destinationTxHash = None, error = None\<rparr>"
    by (simp add: run_defs example_defs deposit_zero_def)
  show "fst (executeBridgeOperation shipped_config deposit_zero eth_optimism_arbitrum fresh_world) = Inr False"
    by (simp add: run_defs accepted_995 example_defs deposit_zero_def)
  show "status_requests (snd (executeBridgeOperation shipped_config deposit_zero eth_optimism_arbitrum fresh_world)) = 0"
    by (simp add: run_defs accepted_995 example_defs deposit_zero_def status_requests_def)
  show "fst (executeBridgeOperation shipped_config deposit_seven eth_optimism_arbitrum fresh_world) = Inr True"
    by (simp add: run_defs accepted_995 example_defs deposit_seven_def pollLoop.simps
          toLowerCase_def lower_char_def)
  show "status_requests (snd (executeBridgeOperation shipped_config deposit_seven eth_optimism_arbitrum fresh_world)) = 3"
    by (simp add: run_defs accepted_995 example_defs deposit_seven_def pollLoop.simps
          toLowerCase_def lower_char_def status_requests_def)
qed

section \<open>Isolation of operations\<close>

lemma saveTransactionToHistory_safe:
  assumes "recorder_safe cfg w"
  shows "fst (saveTransactionToHistory cfg ext operation result quote w) = Inr ()"
proof (cases "saveHistory (OPTIONS cfg)")
  case False
  then show ?thesis by (simp add: saveTransactionToHistory_disabled)
next
  case True
  obtain history w1 where read: "readHistory w = (history, w1)"
    by (cases "readHistory w")
  have "\<exists>records. history = Json_array records"
    using read assms True
    by (cases "history_file w"; cases history)
       (auto simp add: readHistory_def Let_def recorder_safe_def)
  then show ?thesis
    using True read
    by (auto simp add: saveTransactionToHistory_def Let_def split: prod.splits option.splits)
qed

lemma recorder_safe_closed:
  "log_closed (\<lambda>w w'. recorder_safe cfg w \<longrightarrow> recorder_safe cfg w')"
  by (simp add: log_closed_def recorder_safe_def logWithTime_def)

lemma recorder_safe_call: "recorder_safe cfg w \<longrightarrow> recorder_safe cfg (call ev w)"
  by (simp add: recorder_safe_def call_def)

lemma recorder_safe_saved:
  "recorder_safe cfg w
   \<longrightarrow> recorder_safe cfg (snd (saveTransactionToHistory cfg ext operation result quote w))"
  by (rule saveTransactionToHistory_frame [OF recorder_safe_closed])
     (simp_all add: recorder_safe_def call_def)

lemma executeBridgeOperation_try_safe:
  "recorder_safe cfg w \<longrightarrow> recorder_safe cfg (snd (executeBridgeOperation_try cfg ext operation w))"
  by (rule executeBridgeOperation_try_frame [OF recorder_safe_closed])
     (simp_all add: recorder_safe_call recorder_safe_saved
        pollDepositStatus_frame [OF recorder_safe_closed])

lemma executeBridgeOperation_safe:
  "recorder_safe cfg w \<longrightarrow> recorder_safe cfg (snd (executeBridgeOperation cfg ext operation w))"
  by (rule executeBridgeOperation_frame [OF recorder_safe_closed])
     (simp_all add: recorder_safe_call recorder_safe_saved
        pollDepositStatus_frame [OF recorder_safe_closed])

text \<open>
  Where the recorder cannot raise, no error leaves an operation: whatever was raised in
  the \<^verbatim>\<open>try\<close> block is handled by the \<^verbatim>\<open>catch\<close> block, which returns false.
\<close>

lemma executeBridgeOperation_catch_returns:
  assumes "recorder_safe cfg w"
  shows "fst (executeBridgeOperation_catch cfg ext operation e w) = Inr False"
proof -
  define w2 where
    "w2 = (if onError (notifications (MONITORING cfg))
           then logWithTime
                  (Line (''Notification: Error in operation '' @ name operation @ '': '' @ message e))
                  (logWithTime (Line (''Error executing bridge operation: '' @ message e)) w)
           else logWithTime (Line (''Error executing bridge operation: '' @ message e)) w)"
  have "recorder_safe cfg w2"
    using assms by (simp add: w2_def recorder_safe_def logWithTime_def)
  then have "fst (saveTransactionToHistory cfg ext operation (failure (message e)) None w2) = Inr ()"
    by (rule saveTransactionToHistory_safe)
  then obtain w3 where
    "saveTransactionToHistory cfg ext operation (failure (message e)) None w2 = (Inr (), w3)"
    by (cases "saveTransactionToHistory cfg ext operation (failure (message e)) None w2") auto
  then show ?thesis
    by (cases "onError (notifications (MONITORING cfg))")
       (simp_all add: executeBridgeOperation_catch_def Let_def andThen_def w2_def)
qed

lemma executeBridgeOperation_isolated:
  assumes "recorder_safe cfg w"
  shows "\<exists>b. fst (executeBridgeOperation cfg ext operation w) = Inr b"
proof (cases "executeBridgeOperation_try cfg ext operation w")
  case (Pair r w1)
  have safe: "recorder_safe cfg w1"
    using executeBridgeOperation_try_safe [of cfg w ext operation] assms Pair by simp
  show ?thesis
  proof (cases r)
    case (Inl e)
    then show ?thesis
      using Pair executeBridgeOperation_catch_returns [OF safe, of ext operation e]
      by (auto simp add: executeBridgeOperation_def try_catch_def)
  next
    case (Inr b)
    then show ?thesis
      using Pair by (simp add: executeBridgeOperation_def try_catch_def)
  qed
qed

text \<open>
  Then the loop of \<^verbatim>\<open>main\<close> runs every operation of its list, in order, each from the
  world its predecessor left, whatever the outcome of each; and \<^verbatim>\<open>main\<close> returns.
\<close>

lemma forEachOperation_runs_all:
  assumes "recorder_safe cfg w"
  shows "forEachOperation cfg ext operations w
           = (Inr (), foldl (\<lambda>w operation. snd (executeBridgeOperation cfg ext operation w)) w operations)"
  using assms
proof (induction operations arbitrary: w)
  case Nil
  show ?case by simp
next
  case (Cons operation rest)
  obtain b w1 where ran: "executeBridgeOperation cfg ext operation w = (Inr b, w1)"
    using executeBridgeOperation_isolated [OF Cons.prems, of ext operation]
    by (cases "executeBridgeOperation cfg ext operation w") auto
  have "recorder_safe cfg w1"
    using executeBridgeOperation_safe [of cfg w ext operation] Cons.prems ran by simp
  from Cons.IH [OF this] show ?case
    using ran by (simp add: andThen_def)
qed

lemma main_returns:
  assumes "recorder_safe cfg w"
  shows "fst (main cfg ext w) = Returned"
proof -
  have logged: "recorder_safe cfg (logWithTime l w1)" if "recorder_safe cfg w1" for l w1
    using that by (simp add: recorder_safe_def logWithTime_def)
  have listed: "recorder_safe cfg (foldl h w1 xs)"
    if "recorder_safe cfg w1" and "\<And>w x. recorder_safe cfg w \<Longrightarrow> recorder_safe cfg (h w x)"
    for h :: "world \<Rightarrow> nat \<times> operation \<Rightarrow> world" and w1 xs
    using that by (induction xs arbitrary: w1) simp_all
  have run: "fst (andThen (forEachOperation cfg ext operations w1) (\<lambda>_ w4. (Inr (), g w4))) = Inr ()"
    if "recorder_safe cfg w1" for operations w1 g
    using forEachOperation_runs_all [OF that] by (simp add: andThen_def)
  have "fst (main_try cfg ext w) = Inr ()"
    unfolding main_try_def Let_def
    using assms
    by (auto intro!: run listed logged split: prod.splits)
  then show ?thesis
    by (cases "main_try cfg ext w") (auto simp add: main_def)
qed


lemma console_kept: "log_closed (\<lambda>w w'. l \<in> set (console w) \<longrightarrow> l \<in> set (console w'))"
  by (simp add: log_closed_def logWithTime_def)

text \<open>
  An error raised in the \<^verbatim>\<open>try\<close> block, where the recorder cannot raise: the \<^verbatim>\<open>catch\<close>
  block logs it and the operation returns false.
\<close>

lemma executeBridgeOperation_error_handled:
  assumes "executeBridgeOperation_try cfg ext operation w = (Inl e, w1)"
    and "recorder_safe cfg w1"
  shows "fst (executeBridgeOperation cfg ext operation w) = Inr False
         \<and> Line (''Error executing bridge operation: '' @ message e)
             \<in> set (console (snd (executeBridgeOperation cfg ext operation w)))"
proof -
  let ?l = "Line (''Error executing bridge operation: '' @ message e)"
  define w2 where
    "w2 = (if onError (notifications (MONITORING cfg))
           then logWithTime
                  (Line (''Notification: Error in operation '' @ name operation @ '': '' @ message e))
                  (logWithTime ?l w1)
           else logWithTime ?l w1)"
  have caught: "executeBridgeOperation_catch cfg ext operation e w1
            = andThen (saveTransactionToHistory cfg ext operation (failure (message e)) None w2)
                (\<lambda>_ w. (Inr False, w))"
    by (simp add: executeBridgeOperation_catch_def Let_def w2_def)
  have logged: "?l \<in> set (console w2)"
    by (simp add: w2_def logWithTime_def)
  have "?l \<in> set (console w2)
        \<longrightarrow> ?l \<in> set (console (snd (andThen
               (saveTransactionToHistory cfg ext operation (failure (message e)) None w2)
               (\<lambda>_ w. (Inr False, w)))))"
    by (intro andThen_frame [OF console_kept] saveTransactionToHistory_frame [OF console_kept])
       (simp_all add: call_def)
  then show ?thesis
    using assms(1) executeBridgeOperation_catch_returns [OF assms(2), of ext operation e]
      logged caught
    by (simp add: executeBridgeOperation_def try_catch_def)
qed

text \<open>
  With the history enabled and a history file that holds an array and can be written,
  the error is also recorded: one record is appended, of this operation, not successful,
  carrying the message of the error.
\<close>

lemma executeBridgeOperation_error_recorded:
  assumes "executeBridgeOperation_try cfg ext operation w = (Inl e, w1)"
    and "saveHistory (OPTIONS cfg)" and "history_file w1 = Parsed (Json_array records)"
    and "write_failure w1 = None"
  shows "\<exists>entry. history_file (snd (executeBridgeOperation cfg ext operation w))
                   = Parsed (Json_array (records @ [entry]))
           \<and> saved_operation entry = safeOperation operation
           \<and> \<not> saved_success (saved_result entry)
           \<and> saved_error (saved_result entry) = or_null (Some (message e))"
proof -
  define w2 where
    "w2 = (if onError (notifications (MONITORING cfg))
           then logWithTime
                  (Line (''Notification: Error in operation '' @ name operation @ '': '' @ message e))
                  (logWithTime (Line (''Error executing bridge operation: '' @ message e)) w1)
           else logWithTime (Line (''Error executing bridge operation: '' @ message e)) w1)"
  have caught: "executeBridgeOperation_catch cfg ext operation e w1
            = andThen (saveTransactionToHistory cfg ext operation (failure (message e)) None w2)
                (\<lambda>_ w. (Inr False, w))"
    by (simp add: executeBridgeOperation_catch_def Let_def w2_def)
  have w2: "history_file w2 = Parsed (Json_array records)" "write_failure w2 = None"
    using assms(3,4) by (simp_all add: w2_def logWithTime_def)
  from saveTransactionToHistory_appends [OF assms(2) w2, of ext operation "failure (message e)" None]
  obtain entry w' where
    "saveTransactionToHistory cfg ext operation (failure (message e)) None w2 = (Inr (), w')"
    "history_file w' = Parsed (Json_array (records @ [entry]))"
    "saved_operation entry = safeOperation operation"
    "saved_success (saved_result entry) = success (failure (message e))"
    "saved_error (saved_result entry) = or_null (error (failure (message e)))"
    by blast
  then show ?thesis
    using assms(1) caught
    by (intro exI [of _ entry])
       (simp add: executeBridgeOperation_def try_catch_def andThen_Inr failure_def)
qed

text \<open>
  C3. An error raised by the recorder itself is not contained. With two enabled
  operations and a history file that holds \<^verbatim>\<open>{}\<close>, the recorder raises a TypeError at
  \<^verbatim>\<open>history.push\<close> at the end of the first operation; the \<^verbatim>\<open>catch\<close> block of the
  operation logs it and calls the recorder again, which raises again, outside any
  \<^verbatim>\<open>try\<close>; \<^verbatim>\<open>main\<close> catches that, logs a fatal error and exits with status 1. The
  second operation is never started and nothing is recorded.
\<close>

theorem recorder_error_ends_the_run:
  "fst (main two_operations pending_pending_filled object_history_world) = Exited 1
   \<and> Starting_operation ''ETH Arbitrum to Optimism''
        \<in> set (console (snd (main two_operations pending_pending_filled object_history_world)))
   \<and> Starting_operation ''ETH Base to Ethereum''
        \<notin> set (console (snd (main two_operations pending_pending_filled object_history_world)))
   \<and> Line ''Fatal error: history.push is not a function''
        \<in> set (console (snd (main two_operations pending_pending_filled object_history_world)))
   \<and> history_file (snd (main two_operations pending_pending_filled object_history_world))
        = history_file object_history_world"
  by (simp add: main_def main_try_def run_defs accepted_995 example_defs two_operations_def
        object_history_world_def)


end
